theory Spec2Isabelle
  imports Complex_Main "HOL-Library.Sublist" "HOL-Library.Code_Target_Numeral"
begin

section \<open>Strings as the component uses them\<close>

text \<open>
  The component is \<^verbatim>\<open>src/components/brain-tumor-uploader.tsx\<close>. A JavaScript string is a
  sequence of UTF-16 code units; it is modelled as the list of their numbers (numbers from
  65536 on stand for no code unit and are treated like any other unit outside ASCII).
  \<open>lit\<close> gives the units of a literal written in ASCII.
\<close>

type_synonym jstring = "nat list"

definition lit :: "string \<Rightarrow> jstring" where
  "lit s = map of_char s"

text \<open>
  \<^verbatim>\<open>String.prototype.trim\<close> removes white space and line terminators from both ends: tab,
  line feed, vertical tab, form feed, carriage return, space, U+00A0, U+1680, U+2000 to
  U+200A, U+2028, U+2029, U+202F, U+205F, U+3000 and U+FEFF.
\<close>

definition isSpace :: "nat \<Rightarrow> bool" where
  "isSpace c =
     (c \<in> {9, 10, 11, 12, 13, 32, 160, 5760, 8232, 8233, 8239, 8287, 12288, 65279}
      \<or> (8192 \<le> c \<and> c \<le> 8202))"

definition trim :: "jstring \<Rightarrow> jstring" where
  "trim s = rev (dropWhile isSpace (rev (dropWhile isSpace s)))"

text \<open>
  \<^verbatim>\<open>String.prototype.toLowerCase\<close>. The units whose lower case has a unit of ASCII are
  \<^verbatim>\<open>A\<close> to \<^verbatim>\<open>Z\<close>, U+0130 (capital I with a dot above, which becomes \<^verbatim>\<open>i\<close> followed by the
  combining dot U+0307) and U+212A (the Kelvin sign, which becomes \<^verbatim>\<open>k\<close>). Every other unit
  is kept as it is: a unit of ASCII is unchanged in JavaScript too, and a unit outside
  ASCII that JavaScript changes becomes units outside ASCII again, which nothing in the
  component tells apart, since a lower-cased string is only ever searched for ASCII text
  or reduced to its letters \<^verbatim>\<open>a\<close> to \<^verbatim>\<open>z\<close>.
\<close>

definition toLowerUnit :: "nat \<Rightarrow> jstring" where
  "toLowerUnit c =
     (if 65 \<le> c \<and> c \<le> 90 then [c + 32]
      else if c = 304 then [105, 775]
      else if c = 8490 then [107]
      else [c])"

definition toLowerCase :: "jstring \<Rightarrow> jstring" where
  "toLowerCase s = concat (map toLowerUnit s)"

text \<open>\<^verbatim>\<open>s.startsWith(p)\<close> and \<^verbatim>\<open>s.includes(p)\<close>.\<close>

definition startsWith :: "jstring \<Rightarrow> jstring \<Rightarrow> bool" where
  "startsWith s p = prefix p s"

definition includes_str :: "jstring \<Rightarrow> jstring \<Rightarrow> bool" where
  "includes_str s p = sublist p s"

text \<open>
  \<^verbatim>\<open>a || b\<close> where \<^verbatim>\<open>a\<close> is a string or \<^verbatim>\<open>undefined\<close>: the empty string is falsy, like
  \<^verbatim>\<open>undefined\<close>.
\<close>

definition truthy :: "jstring option \<Rightarrow> bool" where
  "truthy a = (case a of None \<Rightarrow> False | Some v \<Rightarrow> v \<noteq> [])"

definition orElse :: "jstring option \<Rightarrow> jstring \<Rightarrow> jstring" where
  "orElse a b = (case a of None \<Rightarrow> b | Some v \<Rightarrow> if v = [] then b else v)"

text \<open>\<^verbatim>\<open>looksLikeHTML\<close>, lines 75-78.\<close>

definition looksLikeHTML :: "jstring \<Rightarrow> bool" where
  "looksLikeHTML s =
     (let t = toLowerCase (trim s)
      in startsWith t (lit ''<!doctype html'') \<or> startsWith t (lit ''<html'') \<or> includes_str t (lit ''</html>'')
         \<or> includes_str t (lit ''<head'') \<or> includes_str t (lit ''<body''))"


section \<open>Responses and their normalisation\<close>

text \<open>
  A response body as the HTTP client hands it over: a string, or a value it has already
  parsed. An object is the list of its members, looked up by key (the first pair with a
  key is the member of that key).
\<close>

datatype json =
    JNull
  | JBool bool
  | JNum real
  | JStr jstring
  | JArr "json list"
  | JObj "(jstring \<times> json) list"

text \<open>
  \<^verbatim>\<open>data?.key\<close>: the member of an object, \<^verbatim>\<open>undefined\<close> on \<^verbatim>\<open>null\<close> and on every value that
  is not an object (none of the keys read below is a property of a string, a number, a
  boolean or an array).
\<close>

definition member_of :: "json \<Rightarrow> jstring \<Rightarrow> json option" where
  "member_of d k = (case d of JObj kvs \<Rightarrow> map_of kvs k | _ \<Rightarrow> None)"

record response =
  headers :: "jstring \<rightharpoonup> jstring"
  body :: json

record PredictResult =
  prediction :: "jstring option"
  confidence :: "real option"
  topK :: "json list option"
  version :: "jstring option"
  latencyMs :: "real option"

text \<open>
  What \<^verbatim>\<open>uploadOnce\<close> can throw, by what its callers read from the thrown value: whether
  it is a cancellation, \<^verbatim>\<open>response.status\<close>, \<^verbatim>\<open>response.data.message\<close> and \<^verbatim>\<open>message\<close>.
  \<^item> \<open>Canceled m\<close>: the request was aborted (\<^verbatim>\<open>axios.isCancel\<close> or an \<^verbatim>\<open>AbortError\<close>);
  \<^item> \<open>HttpError st rm m\<close>: the server answered with a status the client rejects;
  \<^item> \<open>NetworkError m\<close>: no response at all;
  \<^item> \<open>ResponseError m\<close>: an \<^verbatim>\<open>Error\<close> thrown by \<^verbatim>\<open>uploadOnce\<close> itself on a response it
    cannot use. It has no \<^verbatim>\<open>response\<close> member.
\<close>

datatype upload_error =
    Canceled jstring
  | HttpError nat "jstring option" jstring
  | NetworkError jstring
  | ResponseError jstring

fun is_cancel :: "upload_error \<Rightarrow> bool" where
  "is_cancel (Canceled m) = True"
| "is_cancel e = False"

fun response_status :: "upload_error \<Rightarrow> nat option" where
  "response_status (HttpError st rm m) = Some st"
| "response_status e = None"

fun response_message :: "upload_error \<Rightarrow> jstring option" where
  "response_message (HttpError st rm m) = rm"
| "response_message e = None"

fun message_of :: "upload_error \<Rightarrow> jstring" where
  "message_of (Canceled m) = m"
| "message_of (HttpError st rm m) = m"
| "message_of (NetworkError m) = m"
| "message_of (ResponseError m) = m"

definition html_error_message :: jstring where
  "html_error_message =
     (lit ''The prediction endpoint returned HTML instead of JSON. Please verify NEXT_PUBLIC_API_URL and that /predict returns JSON.'')"

definition unexpected_response_message :: jstring where
  "unexpected_response_message =
     (lit ''Unexpected response from server. Expected JSON but received another format. Check the /predict endpoint.'')"

text \<open>
  Line 247: the content type, lower-cased, from either spelling of the header, the empty
  string when there is none.
\<close>

definition contentType :: "(jstring \<rightharpoonup> jstring) \<Rightarrow> jstring" where
  "contentType h = toLowerCase (orElse (h (lit ''content-type'')) (orElse (h (lit ''Content-Type'')) []))"

text \<open>
  Lines 250-261. \<open>parse\<close> is \<^verbatim>\<open>JSON.parse\<close>, a parameter: \<open>None\<close> when it throws. A string
  body that looks like JSON is parsed, and kept as the string when parsing fails; a string
  body that does not look like JSON and is HTML is the configuration error.
\<close>

definition parseBody :: "(jstring \<Rightarrow> json option) \<Rightarrow> jstring \<Rightarrow> json \<Rightarrow> upload_error + json" where
  "parseBody parse ct d =
     (case d of
        JStr s \<Rightarrow>
          (let trimmed = trim s;
               isHtml = (looksLikeHTML trimmed \<or> includes_str ct (lit ''text/html''));
               looksJson = (startsWith trimmed (lit ''{'') \<or> startsWith trimmed (lit ''[''))
           in if looksJson then (case parse trimmed of Some v \<Rightarrow> Inr v | None \<Rightarrow> Inr d)
              else if isHtml then Inl (ResponseError html_error_message)
              else Inr d)
      | _ \<Rightarrow> Inr d)"

text \<open>Lines 263-274: the recognised fields, each kept only at its expected type.\<close>

definition normalize :: "json \<Rightarrow> PredictResult" where
  "normalize d =
     \<lparr> prediction =
         (case member_of d (lit ''prediction'') of
            Some (JStr p) \<Rightarrow> Some p
          | _ \<Rightarrow> (case d of JStr s \<Rightarrow> Some s | _ \<Rightarrow> None)),
       confidence = (case member_of d (lit ''confidence'') of Some (JNum x) \<Rightarrow> Some x | _ \<Rightarrow> None),
       topK = (case member_of d (lit ''topK'') of Some (JArr xs) \<Rightarrow> Some xs | _ \<Rightarrow> None),
       version = (case member_of d (lit ''version'') of Some (JStr v) \<Rightarrow> Some v | _ \<Rightarrow> None),
       latencyMs = (case member_of d (lit ''latencyMs'') of Some (JNum x) \<Rightarrow> Some x | _ \<Rightarrow> None) \<rparr>"

definition isJson :: "jstring \<Rightarrow> bool" where
  "isJson ct = (includes_str ct (lit ''application/json'') \<or> includes_str ct (lit ''application/problem+json''))"

text \<open>
  Lines 247-281, what \<^verbatim>\<open>uploadOnce\<close> makes of a response: the error it throws, or the
  result it stores with \<^verbatim>\<open>setResult\<close>.
\<close>

definition interpretResponse :: "(jstring \<Rightarrow> json option) \<Rightarrow> response \<Rightarrow> upload_error + PredictResult" where
  "interpretResponse parse r =
     (let ct = contentType (headers r)
      in case parseBody parse ct (body r) of
           Inl e \<Rightarrow> Inl e
         | Inr d \<Rightarrow>
             (let normalized = normalize d
              in if \<not> truthy (prediction normalized) \<and> \<not> isJson ct
                 then Inl (ResponseError unexpected_response_message)
                 else Inr normalized))"


section \<open>Presenter: the classification band\<close>

datatype band = Negative | Positive | Unknown

record classification =
  kind :: band
  title :: jstring
  description :: jstring
  container :: jstring
  icon :: jstring

text \<open>The regular expression \<^verbatim>\<open>/[^a-z]/g\<close> removes every character that \<open>isLowerAZ\<close> rejects.\<close>

definition isLowerAZ :: "nat \<Rightarrow> bool" where
  "isLowerAZ c = (97 \<le> c \<and> c \<le> 122)"

text \<open>\<^verbatim>\<open>normalizeLabel\<close>, lines 362-364; the label is a string or \<^verbatim>\<open>undefined\<close>.\<close>

definition normalizeLabel :: "jstring option \<Rightarrow> jstring" where
  "normalizeLabel label = filter isLowerAZ (trim (toLowerCase (orElse label [])))"

text \<open>
  \<^verbatim>\<open>classifyPrediction\<close>, lines 366-414, with its local constant \<^verbatim>\<open>isNoTumor\<close> first. The
  dash in the first two descriptions is U+2014.
\<close>

definition isNoTumor :: "jstring \<Rightarrow> bool" where
  "isNoTumor n =
     (includes_str n (lit ''notumor'') \<or> includes_str n (lit ''notumour'') \<or> n = (lit ''normal'')
      \<or> n = (lit ''healthy'') \<or> includes_str n (lit ''negative'') \<or> includes_str n (lit ''absenceoftumor''))"

definition classifyPrediction :: "jstring option \<Rightarrow> classification" where
  "classifyPrediction pred =
     (let n = normalizeLabel pred
      in if isNoTumor n then
           \<lparr> kind = Negative,
             title = (lit ''No tumor detected''),
             description =
               (lit ''The model did not detect evidence of a tumor in the provided image. False negatives are possible'')
               @ [8212]
               @ (lit ''interpret with clinical context.''),
             container = (lit ''border-emerald-300 bg-emerald-50 text-emerald-950''),
             icon = (lit ''text-emerald-700'') \<rparr>
         else if truthy pred then
           \<lparr> kind = Positive,
             title = (lit ''Tumor likely detected''),
             description =
               (lit ''One or more tumor-related classes were predicted. This is not a diagnosis'')
               @ [8212]
               @ (lit ''please consult a qualified clinician.''),
             container = (lit ''border-red-300 bg-red-50 text-red-950''),
             icon = (lit ''text-red-700'') \<rparr>
         else
           \<lparr> kind = Unknown,
             title = (lit ''Prediction unavailable''),
             description =
               (lit ''The model did not return a recognizable label. Try another image or try again later.''),
             container = (lit ''border-slate-300 bg-slate-50 text-slate-900''),
             icon = (lit ''text-slate-700'') \<rparr>)"

text \<open>
  What the specification calls a casing or spacing variant of a label: the same letters in
  the same order, each in either case, with characters that are not letters put in or left
  out anywhere. The letters are the units whose lower case has a letter \<^verbatim>\<open>a\<close> to \<^verbatim>\<open>z\<close>: the
  ASCII letters, U+0130 and U+212A.
\<close>

definition isLetter :: "nat \<Rightarrow> bool" where
  "isLetter c = (isLowerAZ c \<or> (65 \<le> c \<and> c \<le> 90) \<or> c = 304 \<or> c = 8490)"

inductive variant :: "jstring \<Rightarrow> jstring \<Rightarrow> bool" where
  variant_Nil: "variant [] []"
| variant_insert: "variant b s \<Longrightarrow> \<not> isLetter c \<Longrightarrow> variant b (c # s)"
| variant_drop: "variant b s \<Longrightarrow> \<not> isLetter c \<Longrightarrow> variant (c # b) s"
| variant_letter:
    "variant b s \<Longrightarrow> isLetter c \<Longrightarrow> isLetter d \<Longrightarrow> toLowerUnit c = toLowerUnit d
       \<Longrightarrow> variant (c # b) (d # s)"

text \<open>The labels the specification lists for the band without a tumor.\<close>

definition no_tumor_labels :: "jstring list" where
  "no_tumor_labels =
     [(lit ''No Tumor''), (lit ''No Tumour''), (lit ''normal''), (lit ''healthy''), (lit ''negative''), (lit ''absence of tumor'')]"


section \<open>Validator\<close>

definition MAX_SIZE_BYTES :: nat where
  "MAX_SIZE_BYTES = 10 * 1024 * 1024"

definition ALLOWED_TYPES :: "jstring list" where
  "ALLOWED_TYPES = [(lit ''image/jpeg''), (lit ''image/png''), (lit ''image/webp'')]"

definition MIN_WIDTH :: nat where
  "MIN_WIDTH = 256"

definition MIN_HEIGHT :: nat where
  "MIN_HEIGHT = 256"

text \<open>
  A candidate file: its name, declared media type and byte size, and what decoding it as an
  image gives: the pixel dimensions, or \<open>None\<close> when the image cannot be loaded.
\<close>

record candidate =
  fname :: jstring
  ftype :: jstring
  fsize :: nat
  decoded :: "(nat \<times> nat) option"

text \<open>A natural number in decimal, as a template literal prints it.\<close>

fun showNat :: "nat \<Rightarrow> jstring" where
  "showNat n =
     (if n < 10 then [48 + n] else showNat (n div 10) @ [48 + n mod 10])"

fun ilog1024 :: "nat \<Rightarrow> nat" where
  "ilog1024 n = (if n < 1024 then 0 else Suc (ilog1024 (n div 1024)))"

declare showNat.simps [simp del]

declare ilog1024.simps [simp del]

text \<open>
  \<^verbatim>\<open>humanFileSize\<close>, lines 59-65, in exact arithmetic: \<open>ilog1024\<close> is the integer part of
  the logarithm to base 1024, and \<^verbatim>\<open>toFixed(1)\<close> rounds the quotient to the nearest tenth,
  upwards on a tie. Beyond the four unit names the template prints \<^verbatim>\<open>undefined\<close>.
\<close>

definition humanFileSize :: "nat \<Rightarrow> jstring" where
  "humanFileSize bytes =
     (if bytes = 0 then (lit ''0 B'')
      else let i = ilog1024 bytes;
               tenths = (20 * bytes + 1024 ^ i) div (2 * 1024 ^ i);
               sizes = [(lit ''B''), (lit ''KB''), (lit ''MB''), (lit ''GB'')]
           in showNat (tenths div 10) @ (lit ''.'') @ showNat (tenths mod 10) @ (lit '' '')
              @ (if i < length sizes then sizes ! i else (lit ''undefined'')))"

definition unsupported_type_message :: "jstring \<Rightarrow> jstring" where
  "unsupported_type_message t =
     (lit ''Unsupported file type: '') @ orElse (Some t) (lit ''unknown'') @ (lit ''. Allowed: JPEG, PNG, WEBP.'')"

definition too_large_message :: "nat \<Rightarrow> jstring" where
  "too_large_message n =
     (lit ''File is too large: '') @ humanFileSize n @ (lit ''. Max allowed is '')
     @ humanFileSize MAX_SIZE_BYTES @ (lit ''.'')"

text \<open>The multiplication sign between the dimensions is U+00D7.\<close>

definition times_sign :: jstring where
  "times_sign = [215]"

definition too_small_message :: "nat \<Rightarrow> nat \<Rightarrow> jstring" where
  "too_small_message w h =
     (lit ''Image is too small ('') @ showNat w @ times_sign @ showNat h
     @ (lit ''). Minimum required is '') @ showNat MIN_WIDTH @ times_sign @ showNat MIN_HEIGHT @ (lit ''.'')"

definition unreadable_message :: jstring where
  "unreadable_message = (lit ''Could not read image dimensions. Please try another file.'')"

text \<open>\<^verbatim>\<open>validateBasic\<close>, lines 100-109.\<close>

definition validateBasic :: "candidate \<Rightarrow> jstring list" where
  "validateBasic f =
     (let errs = [];
          errs = (if ftype f \<notin> set ALLOWED_TYPES
                  then errs @ [unsupported_type_message (ftype f)] else errs);
          errs = (if fsize f > MAX_SIZE_BYTES
                  then errs @ [too_large_message (fsize f)] else errs)
      in errs)"

text \<open>
  \<^verbatim>\<open>validateDimensions\<close>, lines 111-130: the \<^verbatim>\<open>catch\<close> branch is the image that does not
  load.
\<close>

definition validateDimensions :: "candidate \<Rightarrow> jstring list" where
  "validateDimensions f =
     (case decoded f of
        None \<Rightarrow> [unreadable_message]
      | Some (w, h) \<Rightarrow>
          if w < MIN_WIDTH \<or> h < MIN_HEIGHT then [too_small_message w h] else [])"


section \<open>Double-precision numbers\<close>

text \<open>
  JavaScript numbers are IEEE 754 doubles, and the progress callback computes with them.
  The numbers it divides and multiplies are not negative, and a finite double that is not
  negative is a mantissa times a power of two: \<open>Double m e\<close> is \<open>m\<close> times 2 to the \<open>e\<close>.
  Byte counts and clock readings are whole numbers below 2 to the 53, which a double holds
  exactly, and from such numbers no result of the callback leaves the range of the normal
  doubles; so the exponent is not bounded here.
\<close>

datatype double = Double nat int

fun dval :: "double \<Rightarrow> real" where
  "dval (Double m e) = real m * 2 ^ nat e / 2 ^ nat (- e)"

text \<open>The number of binary digits of a whole number.\<close>

fun bitlength :: "nat \<Rightarrow> nat" where
  "bitlength n = (if n = 0 then 0 else Suc (bitlength (n div 2)))"

declare bitlength.simps [simp del]

text \<open>The whole number nearest to \<open>n / d\<close>, the even one of the two on a tie.\<close>

definition roundHalfEven :: "nat \<Rightarrow> nat \<Rightarrow> nat" where
  "roundHalfEven n d =
     (let q = n div d; r = n mod d
      in if 2 * r < d then q else if d < 2 * r then Suc q else if even q then q else Suc q)"

text \<open>
  The double nearest to \<open>a / b\<close> times 2 to the \<open>e\<close>, for whole numbers \<open>a\<close> and \<open>b\<close> with
  \<open>b\<close> not zero: the quotient is scaled by a power of two into the range from 2 to the 52
  to 2 to the 53 and rounded there to a mantissa of 53 binary digits.
\<close>

definition fl_quot :: "nat \<Rightarrow> nat \<Rightarrow> int \<Rightarrow> double" where
  "fl_quot a b e =
     (if a = 0 then Double 0 0
      else let k = 52 + int (bitlength b) - int (bitlength a);
               k = (if a * 2 ^ nat k < 2 ^ 52 * (b * 2 ^ nat (- k)) then k + 1 else k)
           in Double (roundHalfEven (a * 2 ^ nat k) (b * 2 ^ nat (- k))) (e - k))"

text \<open>
  The operations of the callback: the quotient of two whole numbers, a double times 100,
  a whole number over a double that is not zero, \<^verbatim>\<open>Math.round\<close> (the nearest whole number,
  the larger one on a tie) and \<^verbatim>\<open>Math.max\<close>.
\<close>

definition div_nat :: "nat \<Rightarrow> nat \<Rightarrow> double" where
  "div_nat a b = fl_quot a b 0"

fun times_100 :: "double \<Rightarrow> double" where
  "times_100 (Double m e) = fl_quot (m * 100) 1 e"

fun nat_div_double :: "nat \<Rightarrow> double \<Rightarrow> double" where
  "nat_div_double a (Double m e) = fl_quot a m (- e)"

definition mathRound :: "double \<Rightarrow> int" where
  "mathRound x = \<lfloor>dval x + 1 / 2\<rfloor>"

definition mathMax :: "double \<Rightarrow> double \<Rightarrow> double" where
  "mathMax x y = (if dval x < dval y then y else x)"


section \<open>The widget state and what the handlers do to it\<close>

datatype status = Idle | Ready | Uploading | Success | Error

text \<open>
  The notifications: \<^verbatim>\<open>toast(...)\<close> is the neutral one, \<^verbatim>\<open>toast.success\<close> and
  \<^verbatim>\<open>toast.error\<close> the styled ones; each with its title and description.
\<close>

datatype toast_kind = Neutral | SuccessToast | ErrorToast

datatype toast = Toast toast_kind jstring jstring

text \<open>
  The React state of the component and its two mutable references, followed by the part of
  the browser the handlers act on. Abort controllers and object URLs are numbered as they
  are created:
  \<^item> \<open>aborted\<close>: the controllers whose signal has fired;
  \<^item> \<open>inflight\<close>: the controller of the request that is on the wire, if there is one;
  \<^item> \<open>requests\<close>: how many requests \<^verbatim>\<open>axios.post\<close> has issued, which is also the number of
    the next controller;
  \<^item> \<open>revoked\<close>: the object URLs that have been released, \<open>nextUrl\<close> the next one to be made;
  \<^item> \<open>toasts\<close>: the notifications shown, in order;
  \<^item> \<open>waited\<close>: the delays, in milliseconds, that \<^verbatim>\<open>uploadWithRetry\<close> has slept.
\<close>

record widget =
  file_st :: "candidate option"
  previewUrl :: "nat option"
  status :: status
  errors :: "jstring list"
  result :: "PredictResult option"
  progress :: int
  uploadedBytes :: nat
  totalBytes :: nat
  etaSeconds :: "double option"
  controllerRef :: "nat option"
  startTimeRef :: "nat option"
  aborted :: "nat set"
  inflight :: "nat option"
  requests :: nat
  revoked :: "nat set"
  nextUrl :: nat
  toasts :: "toast list"
  waited :: "int list"

text \<open>
  \<^verbatim>\<open>controller.abort()\<close>: the signal fires, and the transport gives up the request that
  carries it. \<^verbatim>\<open>controllerRef.current?.abort()\<close> does so for the controller the reference
  holds, if any.
\<close>

definition abort :: "nat \<Rightarrow> widget \<Rightarrow> widget" where
  "abort c s =
     s\<lparr> aborted := insert c (aborted s),
        inflight := (if inflight s = Some c then None else inflight s) \<rparr>"

definition abortCurrent :: "widget \<Rightarrow> widget" where
  "abortCurrent s = (case controllerRef s of None \<Rightarrow> s | Some c \<Rightarrow> abort c s)"

text \<open>\<^verbatim>\<open>revokePreview\<close>, lines 80-82.\<close>

definition revokePreview :: "widget \<Rightarrow> widget" where
  "revokePreview s =
     (case previewUrl s of None \<Rightarrow> s | Some u \<Rightarrow> s\<lparr> revoked := insert u (revoked s) \<rparr>)"

text \<open>\<^verbatim>\<open>resetAll\<close>, lines 84-97. The reference to the controller is not cleared.\<close>

definition resetAll :: "widget \<Rightarrow> widget" where
  "resetAll s =
     (revokePreview (abortCurrent s))
       \<lparr> file_st := None, previewUrl := None, status := Idle, errors := [], result := None,
         progress := 0, uploadedBytes := 0, totalBytes := 0, etaSeconds := None,
         startTimeRef := None \<rparr>"

text \<open>
  \<^verbatim>\<open>setFileWithValidation\<close>, lines 132-148. The object URL that \<^verbatim>\<open>validateDimensions\<close>
  makes for itself is not counted.
\<close>

definition setFileWithValidation :: "candidate \<Rightarrow> widget \<Rightarrow> widget" where
  "setFileWithValidation f s =
     (let basicErrs = validateBasic f;
          dimErrs = validateDimensions f;
          all = basicErrs @ dimErrs
      in if all \<noteq> [] then s\<lparr> errors := all, status := Error \<rparr>
         else (revokePreview s)
                \<lparr> errors := [], file_st := Some f, previewUrl := Some (nextUrl s),
                  nextUrl := Suc (nextUrl s), status := Ready \<rparr>)"

text \<open>\<^verbatim>\<open>handleCancel\<close>, lines 317-325.\<close>

definition handleCancel :: "widget \<Rightarrow> widget" where
  "handleCancel s =
     (abortCurrent s)
       \<lparr> controllerRef := None, status := Ready, progress := 0, uploadedBytes := 0,
         etaSeconds := None,
         toasts := toasts s @ [Toast Neutral (lit ''Upload canceled'') (lit ''You canceled the current upload.'')] \<rparr>"


section \<open>Uploader\<close>

text \<open>
  A progress event of the transport: \<^verbatim>\<open>e.loaded\<close> and \<^verbatim>\<open>e.total\<close>, either of which may be
  missing, and what \<^verbatim>\<open>Date.now()\<close> returns while it is handled.
\<close>

record progress_event =
  ev_loaded :: "nat option"
  ev_total :: "nat option"
  ev_now :: nat

text \<open>
  The \<^verbatim>\<open>onUploadProgress\<close> callback, lines 228-244, in double precision. A start time and
  a total are used only when truthy, that is not zero. The elapsed time is the clock minus
  the start time, a whole number of milliseconds, over 1000; when the clock is behind the
  start time the quotient is negative and loses against 0.001 in \<^verbatim>\<open>Math.max\<close>, as does the
  0 that stands for it here. 0.001 is the double nearest to a thousandth. What remains is
  total minus loaded, 0 when that is negative. The estimate is never negative, so
  \<^verbatim>\<open>Math.max(0, eta)\<close> is the estimate; the last line keeps it only when it is truthy.
\<close>

definition onUploadProgress :: "candidate \<Rightarrow> progress_event \<Rightarrow> widget \<Rightarrow> widget" where
  "onUploadProgress f e s =
     (let loaded = (case ev_loaded e of Some l \<Rightarrow> l | None \<Rightarrow> 0);
          total = (case ev_total e of Some t \<Rightarrow> t | None \<Rightarrow> fsize f);
          pct = (if total \<noteq> 0 then mathRound (times_100 (div_nat loaded total)) else 0);
          s1 = s\<lparr> uploadedBytes := loaded, totalBytes := total, progress := pct \<rparr>
      in case startTimeRef s of
           None \<Rightarrow> s1
         | Some startedAt \<Rightarrow>
             if startedAt \<noteq> 0 \<and> total \<noteq> 0 then
               (let elapsed = div_nat (nat (int (ev_now e) - int startedAt)) 1000;
                    rate = nat_div_double loaded (mathMax elapsed (div_nat 1 1000));
                    remaining = total - loaded;
                    eta = (if dval rate > 0 then Some (nat_div_double remaining rate) else None)
                in s1\<lparr> etaSeconds :=
                         (case eta of
                            None \<Rightarrow> None
                          | Some x \<Rightarrow> if dval x \<noteq> 0 then Some x else None) \<rparr>)
             else s1)"

text \<open>
  One attempt as the outside world plays it: the clock when it starts, the progress events
  while the request is on the wire, and how it ends:
  \<^item> \<open>Responds r\<close>: the transport resolves with a response;
  \<^item> \<open>Rejects e\<close>: the transport rejects with an error;
  \<^item> \<open>UserCancels m\<close>: \<^verbatim>\<open>handleCancel\<close> runs while the request is on the wire, and the
    transport then rejects with its cancellation error, whose message is \<open>m\<close>;
  \<^item> \<open>UserResets m\<close>: the same with \<^verbatim>\<open>resetAll\<close>.
\<close>

datatype attempt_end =
    Responds response
  | Rejects upload_error
  | UserCancels jstring
  | UserResets jstring

record attempt =
  startedAt :: nat
  ticks :: "progress_event list"
  ending :: attempt_end

text \<open>
  What surrounds an upload: \<^verbatim>\<open>JSON.parse\<close>, the attempts by their number in the retry
  series (from 1), and what \<^verbatim>\<open>Math.random()\<close> returns after the attempt of that number.
\<close>

record environment =
  jsonParse :: "jstring \<Rightarrow> json option"
  transport :: "nat \<Rightarrow> attempt"
  random :: "nat \<Rightarrow> real"

text \<open>\<^verbatim>\<open>uploadOnce\<close>, lines 213-224, up to the moment the request is issued.\<close>

definition beginAttempt :: "candidate \<Rightarrow> attempt \<Rightarrow> widget \<Rightarrow> widget" where
  "beginAttempt f a s =
     s\<lparr> controllerRef := Some (requests s), startTimeRef := Some (startedAt a),
        uploadedBytes := 0, totalBytes := fsize f, etaSeconds := None, progress := 0,
        inflight := Some (requests s), requests := Suc (requests s) \<rparr>"

text \<open>
  The result of an attempt: the error \<^verbatim>\<open>uploadOnce\<close> throws, or the result it stores.
\<close>

definition attempt_outcome :: "(jstring \<Rightarrow> json option) \<Rightarrow> attempt \<Rightarrow> upload_error + PredictResult" where
  "attempt_outcome parse a =
     (case ending a of
        Responds r \<Rightarrow> interpretResponse parse r
      | Rejects e \<Rightarrow> Inl e
      | UserCancels m \<Rightarrow> Inl (Canceled m)
      | UserResets m \<Rightarrow> Inl (Canceled m))"

text \<open>\<^verbatim>\<open>uploadOnce\<close>, lines 213-282: \<open>Inl\<close> is the error thrown.\<close>

definition uploadOnce :: "(jstring \<Rightarrow> json option) \<Rightarrow> candidate \<Rightarrow> attempt \<Rightarrow> widget \<Rightarrow> (upload_error + unit) \<times> widget" where
  "uploadOnce parse f a s =
     (let s1 = fold (onUploadProgress f) (ticks a) (beginAttempt f a s)
      in case ending a of
           Responds r \<Rightarrow>
             (case interpretResponse parse r of
                Inl e \<Rightarrow> (Inl e, s1\<lparr> inflight := None \<rparr>)
              | Inr normalized \<Rightarrow> (Inr (), s1\<lparr> inflight := None, result := Some normalized \<rparr>))
         | Rejects e \<Rightarrow> (Inl e, s1\<lparr> inflight := None \<rparr>)
         | UserCancels m \<Rightarrow> (Inl (Canceled m), handleCancel s1)
         | UserResets m \<Rightarrow> (Inl (Canceled m), resetAll s1))"

text \<open>
  Line 206: the delay after the failed attempt of the given number, with the product of
  the random number and 200 taken exactly. (In double precision the product can fall on
  the other side of a whole number, which changes the jitter by one at some random
  numbers and never its range.)
\<close>

definition backoffDelay :: "nat \<Rightarrow> real \<Rightarrow> int" where
  "backoffDelay attempt rnd = min (2000 * 2 ^ (attempt - 1)) 8000 + \<lfloor>rnd * 200\<rfloor>"

text \<open>Line 205: \<^verbatim>\<open>status && status < 500\<close>.\<close>

definition client_status :: "upload_error \<Rightarrow> bool" where
  "client_status err = (case response_status err of None \<Rightarrow> False | Some st \<Rightarrow> st \<noteq> 0 \<and> st < 500)"

text \<open>
  \<^verbatim>\<open>uploadWithRetry\<close>, lines 190-211: the loop, entered with the number of attempts made
  and the last error (\<^verbatim>\<open>null\<close> before the first). \<open>Inl\<close> is what is thrown.
\<close>

function uploadWithRetry_loop ::
  "environment \<Rightarrow> candidate \<Rightarrow> nat \<Rightarrow> nat \<Rightarrow> upload_error option \<Rightarrow> widget
     \<Rightarrow> (upload_error option + unit) \<times> widget" where
  "uploadWithRetry_loop env f maxAttempts attempt lastError s =
     (if attempt < maxAttempts then
        (case uploadOnce (jsonParse env) f (transport env (Suc attempt)) s of
           (Inr u, s') \<Rightarrow> (Inr (), s')
         | (Inl err, s') \<Rightarrow>
             if is_cancel err then (Inl (Some err), s')
             else if client_status err then (Inl (Some err), s')
             else uploadWithRetry_loop env f maxAttempts (Suc attempt) (Some err)
                    (s'\<lparr> waited := waited s' @ [backoffDelay (Suc attempt) (random env (Suc attempt))] \<rparr>))
      else (Inl lastError, s))"
  by pat_completeness auto
termination
  by (relation "measure (\<lambda>(env, f, maxAttempts, attempt, lastError, s). maxAttempts - attempt)") auto

declare uploadWithRetry_loop.simps [simp del]

definition uploadWithRetry :: "environment \<Rightarrow> candidate \<Rightarrow> nat \<Rightarrow> widget \<Rightarrow> (upload_error option + unit) \<times> widget" where
  "uploadWithRetry env f maxAttempts s = uploadWithRetry_loop env f maxAttempts 0 None s"

definition no_file_message :: jstring where
  "no_file_message = (lit ''Please select an image before uploading.'')"

definition default_failure_message :: jstring where
  "default_failure_message = (lit ''Prediction failed due to a network or server error.'')"

text \<open>
  Lines 304-307: the message shown for what was caught, \<^verbatim>\<open>response.data.message\<close> first,
  then \<^verbatim>\<open>message\<close>, then the default.
\<close>

definition failure_message :: "upload_error option \<Rightarrow> jstring" where
  "failure_message error =
     (case error of
        None \<Rightarrow> default_failure_message
      | Some e \<Rightarrow> orElse (response_message e) (orElse (Some (message_of e)) default_failure_message))"

text \<open>\<^verbatim>\<open>handleUpload\<close>, lines 284-315, from the click to the end of its \<^verbatim>\<open>finally\<close> block.\<close>

definition handleUpload :: "environment \<Rightarrow> widget \<Rightarrow> widget" where
  "handleUpload env s =
     (case file_st s of
        None \<Rightarrow> s\<lparr> errors := [no_file_message], status := Error \<rparr>
      | Some f \<Rightarrow>
          (let s1 = s\<lparr> status := Uploading, result := None, errors := [],
                       toasts := toasts s @ [Toast Neutral (lit ''Starting upload'')
                                   (lit ''Your image is being uploaded and processed...'')] \<rparr>;
               s3 = (case uploadWithRetry env f 3 s1 of
                       (Inr u, s2) \<Rightarrow>
                         s2\<lparr> status := Success,
                             toasts := toasts s2 @ [Toast SuccessToast (lit ''Prediction complete'')
                                         (lit ''The model returned a result successfully.'')] \<rparr>
                     | (Inl error, s2) \<Rightarrow>
                         (let msg = failure_message error
                          in s2\<lparr> status := Error, errors := [msg],
                                 toasts := toasts s2 @ [Toast ErrorToast (lit ''Prediction failed'') msg] \<rparr>))
           in s3\<lparr> controllerRef := None, startTimeRef := None \<rparr>))"


section \<open>The specification's notions, for comparison with the code\<close>

text \<open>
  A usable prediction string: the body is an object whose member \<^verbatim>\<open>prediction\<close> is a
  string that is not empty, or the body itself is a string that is not empty.
\<close>

definition usable_prediction :: "json \<Rightarrow> bool" where
  "usable_prediction d =
     (case d of
        JStr b \<Rightarrow> b \<noteq> []
      | JObj kvs \<Rightarrow> (case map_of kvs (lit ''prediction'') of Some (JStr p) \<Rightarrow> p \<noteq> [] | _ \<Rightarrow> False)
      | _ \<Rightarrow> False)"

text \<open>
  The member of an object under a name when it is a string, a number or an array, and
  nothing when it is missing or of another kind.
\<close>

definition string_field :: "(jstring \<times> json) list \<Rightarrow> jstring \<Rightarrow> jstring option" where
  "string_field kvs k = (case map_of kvs k of Some (JStr v) \<Rightarrow> Some v | _ \<Rightarrow> None)"

definition number_field :: "(jstring \<times> json) list \<Rightarrow> jstring \<Rightarrow> real option" where
  "number_field kvs k = (case map_of kvs k of Some (JNum x) \<Rightarrow> Some x | _ \<Rightarrow> None)"

definition array_field :: "(jstring \<times> json) list \<Rightarrow> jstring \<Rightarrow> json list option" where
  "array_field kvs k = (case map_of kvs k of Some (JArr xs) \<Rightarrow> Some xs | _ \<Rightarrow> None)"

definition recognized_fields :: "jstring list" where
  "recognized_fields = [(lit ''prediction''), (lit ''confidence''), (lit ''topK''), (lit ''version''), (lit ''latencyMs'')]"

definition no_fields :: PredictResult where
  "no_fields =
     \<lparr> prediction = None, confidence = None, topK = None, version = None, latencyMs = None \<rparr>"

text \<open>The three checks of the validator, each on the one attribute it looks at.\<close>

definition type_check :: "jstring \<Rightarrow> jstring list" where
  "type_check t = (if t \<in> set ALLOWED_TYPES then [] else [unsupported_type_message t])"

definition size_check :: "nat \<Rightarrow> jstring list" where
  "size_check n = (if n \<le> MAX_SIZE_BYTES then [] else [too_large_message n])"

definition dimension_check :: "(nat \<times> nat) option \<Rightarrow> jstring list" where
  "dimension_check dims =
     (case dims of
        None \<Rightarrow> [unreadable_message]
      | Some (w, h) \<Rightarrow> if MIN_WIDTH \<le> w \<and> MIN_HEIGHT \<le> h then [] else [too_small_message w h])"

text \<open>
  The retry rule as the specification words it: an attempt is retried exactly when it
  failed with a network error or with a status of 500 or more.
\<close>

definition transient_failure :: "upload_error + PredictResult \<Rightarrow> bool" where
  "transient_failure out =
     (case out of
        Inl (NetworkError m) \<Rightarrow> True
      | Inl (HttpError st rm m) \<Rightarrow> 500 \<le> st
      | _ \<Rightarrow> False)"

text \<open>
  The retry rule of the loop: an attempt is followed by a delay and, if attempts remain, by
  another attempt exactly when it threw something that is neither a cancellation nor an
  error with a status between 1 and 499.
\<close>

definition retried :: "upload_error + PredictResult \<Rightarrow> bool" where
  "retried out = (case out of Inl e \<Rightarrow> \<not> is_cancel e \<and> \<not> client_status e | Inr n \<Rightarrow> False)"


text \<open>
  The percentage and the estimate as the specification words them, from the bytes sent, the
  total and the seconds elapsed: the estimate is defined whenever the rate is positive.
\<close>

definition claimed_percent :: "nat \<Rightarrow> nat \<Rightarrow> int" where
  "claimed_percent sent all = round (100 * real sent / real all)"

definition claimed_eta :: "nat \<Rightarrow> nat \<Rightarrow> real \<Rightarrow> real option" where
  "claimed_eta sent all elapsed =
     (let rate = real sent / max elapsed (1 / 1000)
      in if rate > 0 then Some ((real all - real sent) / rate) else None)"


text \<open>
  How many attempts a series makes when \<open>a\<close> attempts have been made and \<open>n\<close> more are
  allowed, \<open>retr k\<close> telling whether the attempt of number \<open>k\<close> is one to retry.
\<close>

fun attempts_from :: "(nat \<Rightarrow> bool) \<Rightarrow> nat \<Rightarrow> nat \<Rightarrow> nat" where
  "attempts_from retr a 0 = 0"
| "attempts_from retr a (Suc n) = (if retr (Suc a) then Suc (attempts_from retr (Suc a) n) else 1)"


section \<open>Concrete inputs\<close>

text \<open>The component as it is mounted: the initial values of its state and references.\<close>

definition initial_widget :: widget where
  "initial_widget =
     \<lparr> file_st = None, previewUrl = None, status = Idle, errors = [], result = None,
       progress = 0, uploadedBytes = 0, totalBytes = 0, etaSeconds = None,
       controllerRef = None, startTimeRef = None, aborted = {}, inflight = None,
       requests = 0, revoked = {}, nextUrl = 0, toasts = [], waited = [] \<rparr>"

definition sample_file :: candidate where
  "sample_file = \<lparr> fname = (lit ''scan.png''), ftype = (lit ''image/png''), fsize = 204800, decoded = Some (512, 512) \<rparr>"

text \<open>The widget once \<open>sample_file\<close> has been selected.\<close>

definition ready_widget :: widget where
  "ready_widget = setFileWithValidation sample_file initial_widget"

text \<open>A \<^verbatim>\<open>JSON.parse\<close> for bodies that are not JSON: it throws.\<close>

definition no_parse :: "jstring \<Rightarrow> json option" where
  "no_parse s = None"

definition html_page :: response where
  "html_page =
     \<lparr> headers = [(lit ''content-type'') \<mapsto> (lit ''text/html'')],
       body = JStr (lit ''<!DOCTYPE html><html><body>Not Found</body></html>'') \<rparr>"

definition plain_object :: response where
  "plain_object = \<lparr> headers = [(lit ''content-type'') \<mapsto> (lit ''text/plain'')], body = JObj [(lit ''foo'', JNum 1)] \<rparr>"

definition glioma_response :: response where
  "glioma_response =
     \<lparr> headers = [(lit ''content-type'') \<mapsto> (lit ''application/json'')],
       body = JObj [(lit ''prediction'', JStr (lit ''glioma'')), (lit ''confidence'', JNum (93 / 100)),
                    (lit ''extra'', JBool True)] \<rparr>"

text \<open>
  An answer with all five recognised members and one more, sent as plain text; a page and
  an empty object, each behind a no-break space; and a \<^verbatim>\<open>JSON.parse\<close> that knows the empty
  object only.
\<close>

definition full_response :: response where
  "full_response =
     \<lparr> headers = [(lit ''content-type'') \<mapsto> (lit ''text/plain'')],
       body = JObj [(lit ''prediction'', JStr (lit ''glioma'')),
                    (lit ''confidence'', JNum (93 / 100)),
                    (lit ''topK'', JArr [JStr (lit ''glioma''), JStr (lit ''notumor'')]),
                    (lit ''version'', JStr (lit ''v2'')),
                    (lit ''latencyMs'', JNum 120),
                    (lit ''extra'', JBool True)] \<rparr>"

definition nbsp_page :: response where
  "nbsp_page =
     \<lparr> headers = [(lit ''content-type'') \<mapsto> (lit ''text/plain'')],
       body = JStr ([160] @ (lit ''<html>x'')) \<rparr>"

definition nbsp_object :: response where
  "nbsp_object =
     \<lparr> headers = [(lit ''content-type'') \<mapsto> (lit ''text/html'')],
       body = JStr ([160] @ (lit ''{}'')) \<rparr>"

definition parse_braces :: "jstring \<Rightarrow> json option" where
  "parse_braces s = (if s = (lit ''{}'') then Some (JObj []) else None)"

text \<open>Attempts without progress events, started at a fixed time.\<close>

definition responding :: "response \<Rightarrow> attempt" where
  "responding r = \<lparr> startedAt = 1000, ticks = [], ending = Responds r \<rparr>"

definition failing :: "upload_error \<Rightarrow> attempt" where
  "failing e = \<lparr> startedAt = 1000, ticks = [], ending = Rejects e \<rparr>"

definition server_error :: "nat \<Rightarrow> upload_error" where
  "server_error st = HttpError st None ((lit ''Request failed with status code '') @ showNat st)"


text \<open>
  A file that fails all three checks, an upload in progress with a preview and a request
  on the wire, the last progress event of an upload, one at half of it, one at 29696 of
  the 204800 bytes of the sample file, and the surroundings of an upload given its
  attempts.
\<close>

definition bad_file :: candidate where
  "bad_file = \<lparr> fname = (lit ''notes.pdf''), ftype = (lit ''application/pdf''), fsize = 20971520, decoded = Some (100, 200) \<rparr>"

definition uploading_widget :: widget where
  "uploading_widget =
     beginAttempt sample_file (responding glioma_response) (ready_widget\<lparr> status := Uploading \<rparr>)"

definition last_tick :: progress_event where
  "last_tick = \<lparr> ev_loaded = Some 100, ev_total = Some 100, ev_now = 2000 \<rparr>"

definition half_tick :: progress_event where
  "half_tick = \<lparr> ev_loaded = Some 50, ev_total = Some 100, ev_now = 2000 \<rparr>"

definition odd_tick :: progress_event where
  "odd_tick = \<lparr> ev_loaded = Some 29696, ev_total = Some 204800, ev_now = 2000 \<rparr>"

definition env_of :: "(nat \<Rightarrow> attempt) \<Rightarrow> environment" where
  "env_of tr = \<lparr> jsonParse = no_parse, transport = tr, random = (\<lambda>k. 1 / 2) \<rparr>"


text \<open>
  Transports: one whose first answer is the HTML page and whose later answers are good, one
  that fails twice with status 503 and then answers, one that fails with status 400, one
  whose first attempt the user cancels, and one whose first attempt the user resets.
\<close>

definition html_then_ok :: environment where
  "html_then_ok = env_of (\<lambda>k. if k = 1 then responding html_page else responding glioma_response)"

definition twice_503 :: environment where
  "twice_503 = env_of (\<lambda>k. if k < 3 then failing (server_error 503) else responding glioma_response)"

definition once_400 :: environment where
  "once_400 = env_of (\<lambda>k. if k = 1 then failing (server_error 400) else responding glioma_response)"

definition canceled_first :: environment where
  "canceled_first =
     env_of (\<lambda>k. if k = 1 then \<lparr> startedAt = 1000, ticks = [half_tick], ending = UserCancels (lit ''canceled'') \<rparr>
                  else responding glioma_response)"

definition reset_first :: environment where
  "reset_first =
     env_of (\<lambda>k. if k = 1 then \<lparr> startedAt = 1000, ticks = [half_tick], ending = UserResets (lit ''canceled'') \<rparr>
                  else responding glioma_response)"


section \<open>Properties of the strings\<close>

lemma lit_eq_iff [simp]: "lit a = lit b \<longleftrightarrow> a = b"
proof -
  have "inj (of_char :: char \<Rightarrow> nat)" by (rule inj_of_char)
  then have "inj (map (of_char :: char \<Rightarrow> nat))" by simp
  then show ?thesis by (simp add: lit_def inj_eq)
qed

lemma lit_Nil_iff [simp]: "lit a = [] \<longleftrightarrow> a = []" "[] = lit a \<longleftrightarrow> a = []"
  by (auto simp: lit_def)

lemma filter_dropWhile_disjoint:
  "(\<And>x. P x \<Longrightarrow> \<not> Q x) \<Longrightarrow> filter Q (dropWhile P xs) = filter Q xs"
  by (induction xs) auto

lemma filter_trim:
  assumes "\<And>x. isSpace x \<Longrightarrow> \<not> Q x"
  shows "filter Q (trim xs) = filter Q xs"
proof -
  have "filter Q (trim xs) = rev (filter Q (dropWhile isSpace (rev (dropWhile isSpace xs))))"
    by (simp add: trim_def rev_filter)
  also have "\<dots> = rev (filter Q (rev (dropWhile isSpace xs)))"
    using assms by (simp add: filter_dropWhile_disjoint)
  also have "\<dots> = filter Q (dropWhile isSpace xs)"
    by (simp add: rev_filter)
  finally show ?thesis
    using assms by (simp add: filter_dropWhile_disjoint)
qed

section \<open>Properties of the presenter\<close>

lemma isSpace_not_lower: "isSpace c \<Longrightarrow> \<not> isLowerAZ c"
  by (auto simp: isSpace_def isLowerAZ_def)

lemma orElse_Some_Nil: "orElse (Some s) [] = s"
  by (simp add: orElse_def)

lemma normalizeLabel_Some: "normalizeLabel (Some s) = filter isLowerAZ (toLowerCase s)"
  by (simp add: normalizeLabel_def orElse_Some_Nil filter_trim isSpace_not_lower)

lemma normalizeLabel_None: "normalizeLabel None = []"
  by (simp add: normalizeLabel_def orElse_def trim_def toLowerCase_def)

text \<open>
  Lower-casing a letter gives one letter \<^verbatim>\<open>a\<close> to \<^verbatim>\<open>z\<close> (followed by the combining dot
  for U+0130); lower-casing any other unit gives no such letter.
\<close>

lemma lower_of_letter: "isLetter c \<Longrightarrow> filter isLowerAZ (toLowerUnit c) \<noteq> []"
  by (auto simp: isLetter_def isLowerAZ_def toLowerUnit_def)

lemma lower_of_other: "\<not> isLetter c \<Longrightarrow> filter isLowerAZ (toLowerUnit c) = []"
  by (auto simp: isLetter_def isLowerAZ_def toLowerUnit_def)

lemma variant_same_letters:
  "variant b s \<Longrightarrow> filter isLowerAZ (toLowerCase b) = filter isLowerAZ (toLowerCase s)"
proof (induction rule: variant.induct)
  case variant_Nil
  show ?case by simp
next
  case (variant_insert b s c)
  then show ?case by (simp add: toLowerCase_def lower_of_other)
next
  case (variant_drop b s c)
  then show ?case by (simp add: toLowerCase_def lower_of_other)
next
  case (variant_letter b s c d)
  then show ?case by (simp add: toLowerCase_def)
qed

lemma variant_normalizeLabel: "variant b s \<Longrightarrow> normalizeLabel (Some s) = normalizeLabel (Some b)"
  by (simp add: normalizeLabel_Some variant_same_letters)

lemma no_tumor_labels_negative:
  assumes "b \<in> set no_tumor_labels"
  shows "isNoTumor (normalizeLabel (Some b))"
proof -
  have 1: "isNoTumor (normalizeLabel (Some (lit ''No Tumor'')))" by code_simp
  have 2: "isNoTumor (normalizeLabel (Some (lit ''No Tumour'')))" by code_simp
  have 3: "isNoTumor (normalizeLabel (Some (lit ''normal'')))" by code_simp
  have 4: "isNoTumor (normalizeLabel (Some (lit ''healthy'')))" by code_simp
  have 5: "isNoTumor (normalizeLabel (Some (lit ''negative'')))" by code_simp
  have 6: "isNoTumor (normalizeLabel (Some (lit ''absence of tumor'')))" by code_simp
  from assms have "b = lit ''No Tumor'' \<or> b = lit ''No Tumour'' \<or> b = lit ''normal''
      \<or> b = lit ''healthy'' \<or> b = lit ''negative'' \<or> b = lit ''absence of tumor''"
    unfolding no_tumor_labels_def by (simp only: set_simps insert_iff empty_iff simp_thms)
  with 1 2 3 4 5 6 show ?thesis by blast
qed

lemma kind_classify:
  "kind (classifyPrediction pred) =
     (if isNoTumor (normalizeLabel pred) then Negative else if truthy pred then Positive else Unknown)"
  by (simp add: classifyPrediction_def Let_def)

lemma glioma_not_negative: "\<not> isNoTumor (normalizeLabel (Some (lit ''glioma'')))"
  by code_simp

lemma empty_not_negative: "\<not> isNoTumor []"
  by code_simp

text \<open>
  Claim C8. \<^verbatim>\<open>normalizeLabel\<close> lower-cases the label and keeps its letters only. Every casing
  or spacing variant of "No Tumor", and of each other label of the band, is classified as
  negative; a label that is present (not empty) and does not match the tokens of the
  negative band, such as "glioma", is classified as positive; an absent label is classified
  as unknown.
\<close>

theorem classification_bands:
  "(\<forall>s. normalizeLabel (Some s) = filter isLowerAZ (toLowerCase s))
   \<and> (\<forall>b s. b \<in> set no_tumor_labels \<and> variant b s \<longrightarrow> kind (classifyPrediction (Some s)) = Negative)
   \<and> (\<forall>s. s \<noteq> [] \<and> \<not> isNoTumor (normalizeLabel (Some s)) \<longrightarrow> kind (classifyPrediction (Some s)) = Positive)
   \<and> kind (classifyPrediction (Some (lit ''glioma''))) = Positive
   \<and> kind (classifyPrediction None) = Unknown"
proof (intro conjI allI impI)
  fix s show "normalizeLabel (Some s) = filter isLowerAZ (toLowerCase s)"
    by (rule normalizeLabel_Some)
next
  fix b s assume a: "b \<in> set no_tumor_labels \<and> variant b s"
  then have "normalizeLabel (Some s) = normalizeLabel (Some b)"
    by (simp add: variant_normalizeLabel)
  with a have "isNoTumor (normalizeLabel (Some s))"
    by (simp add: no_tumor_labels_negative)
  then show "kind (classifyPrediction (Some s)) = Negative"
    by (simp add: kind_classify)
next
  fix s :: jstring assume "s \<noteq> [] \<and> \<not> isNoTumor (normalizeLabel (Some s))"
  then show "kind (classifyPrediction (Some s)) = Positive"
    by (simp add: kind_classify truthy_def)
next
  show "kind (classifyPrediction (Some (lit ''glioma''))) = Positive"
    using glioma_not_negative by (simp add: kind_classify truthy_def)
next
  show "kind (classifyPrediction None) = Unknown"
    using empty_not_negative by (simp add: kind_classify truthy_def normalizeLabel_None)
qed

lemma variant_same_letter: "isLetter c \<Longrightarrow> variant b s \<Longrightarrow> variant (c # b) (c # s)"
  by (rule variant_letter) simp_all

lemma variant_NO_TUMOR: "variant (lit ''No Tumor'') (lit ''NO_TUMOR'')"
proof -
  have l: "isLetter 78" "isLetter 111" "isLetter 79" "isLetter 84" "isLetter 117" "isLetter 85"
    "isLetter 109" "isLetter 77" "isLetter 114" "isLetter 82"
    by (simp_all add: isLetter_def isLowerAZ_def)
  have n: "\<not> isLetter 32" "\<not> isLetter 95"
    by (simp_all add: isLetter_def isLowerAZ_def)
  have e: "toLowerUnit 111 = toLowerUnit 79" "toLowerUnit 117 = toLowerUnit 85"
    "toLowerUnit 109 = toLowerUnit 77" "toLowerUnit 114 = toLowerUnit 82"
    by (simp_all add: toLowerUnit_def)
  have "variant [114] [82]"
    by (rule variant_letter [OF variant_Nil l(9) l(10) e(4)])
  then have "variant [111, 114] [79, 82]"
    by (rule variant_letter [OF _ l(2) l(3) e(1)])
  then have "variant [109, 111, 114] [77, 79, 82]"
    by (rule variant_letter [OF _ l(7) l(8) e(3)])
  then have "variant [117, 109, 111, 114] [85, 77, 79, 82]"
    by (rule variant_letter [OF _ l(5) l(6) e(2)])
  then have "variant [84, 117, 109, 111, 114] [84, 85, 77, 79, 82]"
    by (rule variant_same_letter [OF l(4)])
  then have "variant [84, 117, 109, 111, 114] [95, 84, 85, 77, 79, 82]"
    by (rule variant_insert [OF _ n(2)])
  then have "variant [32, 84, 117, 109, 111, 114] [95, 84, 85, 77, 79, 82]"
    by (rule variant_drop [OF _ n(1)])
  then have "variant [111, 32, 84, 117, 109, 111, 114] [79, 95, 84, 85, 77, 79, 82]"
    by (rule variant_letter [OF _ l(2) l(3) e(1)])
  then have "variant [78, 111, 32, 84, 117, 109, 111, 114] [78, 79, 95, 84, 85, 77, 79, 82]"
    by (rule variant_same_letter [OF l(1)])
  then show ?thesis
    by (simp add: lit_def)
qed

text \<open>
  The capital I with a dot is a letter: a label spelt with it is negative when its lower
  case matches, as \<^verbatim>\<open>NEGAT\<close>, U+0130, \<^verbatim>\<open>VE\<close> does, and put into "No Tumor" it gives a label that
  is no variant of it and is positive.
\<close>

lemma dotted_I_labels:
  "kind (classifyPrediction (Some (lit ''NEGAT'' @ [304] @ lit ''VE''))) = Negative"
  "kind (classifyPrediction (Some (lit ''No Tum'' @ [304] @ lit ''or''))) = Positive"
proof -
  have "isNoTumor (normalizeLabel (Some (lit ''NEGAT'' @ [304] @ lit ''VE'')))" by code_simp
  then show "kind (classifyPrediction (Some (lit ''NEGAT'' @ [304] @ lit ''VE''))) = Negative"
    by (simp add: kind_classify)
  have "\<not> isNoTumor (normalizeLabel (Some (lit ''No Tum'' @ [304] @ lit ''or'')))" by code_simp
  then show "kind (classifyPrediction (Some (lit ''No Tum'' @ [304] @ lit ''or''))) = Positive"
    by (simp add: kind_classify truthy_def)
qed

theorem classification_bands_witness:
  "lit ''No Tumor'' \<in> set no_tumor_labels \<and> variant (lit ''No Tumor'') (lit ''NO_TUMOR'')
   \<and> kind (classifyPrediction (Some (lit ''NO_TUMOR''))) = Negative
   \<and> lit ''meningioma'' \<noteq> [] \<and> \<not> isNoTumor (normalizeLabel (Some (lit ''meningioma'')))
   \<and> kind (classifyPrediction (Some (lit ''meningioma''))) = Positive"
proof -
  have a: "lit ''No Tumor'' \<in> set no_tumor_labels" by (simp add: no_tumor_labels_def)
  have b: "\<not> isNoTumor (normalizeLabel (Some (lit ''meningioma'')))" by code_simp
  have c: "lit ''meningioma'' \<noteq> []" by simp
  from classification_bands a variant_NO_TUMOR b c show ?thesis by blast
qed


section \<open>Properties of the response handling\<close>

lemma html_message_mentions:
  "includes_str html_error_message (lit ''NEXT_PUBLIC_API_URL'')"
  "includes_str html_error_message (lit ''/predict'')"
  by code_simp+

lemma parseBody_html:
  assumes "\<not> startsWith (trim s) (lit ''{'')" and "\<not> startsWith (trim s) (lit ''['')"
    and "looksLikeHTML (trim s) \<or> includes_str ct (lit ''text/html'')"
  shows "parseBody parse ct (JStr s) = Inl (ResponseError html_error_message)"
  using assms by (simp add: parseBody_def Let_def)

lemma onUploadProgress_frame:
  "\<exists>u t p e. onUploadProgress f ev s =
     s\<lparr> uploadedBytes := u, totalBytes := t, progress := p, etaSeconds := e \<rparr>"
proof -
  have "\<exists>e. onUploadProgress f ev s =
     s\<lparr> uploadedBytes := (case ev_loaded ev of Some l \<Rightarrow> l | None \<Rightarrow> 0),
        totalBytes := (case ev_total ev of Some t \<Rightarrow> t | None \<Rightarrow> fsize f),
        progress := progress (onUploadProgress f ev s), etaSeconds := e \<rparr>"
    by (cases "startTimeRef s") (auto simp: onUploadProgress_def Let_def intro: exI [of _ "etaSeconds s"])
  then show ?thesis by blast
qed

lemma ticks_frame:
  "\<exists>u t p e. fold (onUploadProgress f) evs s =
     s\<lparr> uploadedBytes := u, totalBytes := t, progress := p, etaSeconds := e \<rparr>"
proof (induction evs arbitrary: s)
  case Nil
  have "s = s\<lparr> uploadedBytes := uploadedBytes s, totalBytes := totalBytes s,
               progress := progress s, etaSeconds := etaSeconds s \<rparr>" by simp
  then show ?case by (metis fold_simps(1))
next
  case (Cons ev evs)
  obtain u t p e where 1: "onUploadProgress f ev s =
     s\<lparr> uploadedBytes := u, totalBytes := t, progress := p, etaSeconds := e \<rparr>"
    using onUploadProgress_frame by blast
  obtain u' t' p' e' where 2: "fold (onUploadProgress f) evs (onUploadProgress f ev s) =
     (onUploadProgress f ev s)\<lparr> uploadedBytes := u', totalBytes := t', progress := p', etaSeconds := e' \<rparr>"
    using Cons.IH by blast
  have "fold (onUploadProgress f) (ev # evs) s =
     s\<lparr> uploadedBytes := u', totalBytes := t', progress := p', etaSeconds := e' \<rparr>"
    by (simp add: 2) (simp add: 1)
  then show ?case by blast
qed


lemma uploadOnce_fst:
  "fst (uploadOnce parse f a s) = (case attempt_outcome parse a of Inl e \<Rightarrow> Inl e | Inr n \<Rightarrow> Inr ())"
  by (cases "ending a") (simp_all add: uploadOnce_def attempt_outcome_def Let_def split: sum.splits)

lemma result_beginAttempt: "result (beginAttempt f a s) = result s"
  by (simp add: beginAttempt_def)

lemma result_ticks: "result (fold (onUploadProgress f) evs s) = result s"
proof -
  obtain u t p e where "fold (onUploadProgress f) evs s =
     s\<lparr> uploadedBytes := u, totalBytes := t, progress := p, etaSeconds := e \<rparr>"
    using ticks_frame by blast
  then show ?thesis by simp
qed

lemma uploadOnce_result_failed:
  assumes "ending a = Responds r" and "interpretResponse parse r = Inl e"
  shows "result (snd (uploadOnce parse f a s)) = result s"
  using assms by (simp add: uploadOnce_def Let_def result_ticks result_beginAttempt)

lemma uploadOnce_result_stored:
  assumes "ending a = Responds r" and "interpretResponse parse r = Inr n"
  shows "result (snd (uploadOnce parse f a s)) = Some n"
  using assms by (simp add: uploadOnce_def Let_def)

text \<open>
  Claim C5. When the body of a response is a string whose trimmed content starts with
  neither a brace nor a bracket, and that content shows the markers of an HTML document or
  the content type declares HTML, \<^verbatim>\<open>uploadOnce\<close> throws the error whose message names the
  configured endpoint (\<^verbatim>\<open>NEXT_PUBLIC_API_URL\<close> and \<^verbatim>\<open>/predict\<close>), and stores no result.
\<close>

theorem html_response_is_configuration_error:
  assumes "ending a = Responds r" and "body r = JStr b"
    and "\<not> startsWith (trim b) (lit ''{'')" and "\<not> startsWith (trim b) (lit ''['')"
    and "looksLikeHTML (trim b) \<or> includes_str (contentType (headers r)) (lit ''text/html'')"
  shows "fst (uploadOnce parse f a s) = Inl (ResponseError html_error_message)
    \<and> result (snd (uploadOnce parse f a s)) = result s
    \<and> includes_str html_error_message (lit ''NEXT_PUBLIC_API_URL'')
    \<and> includes_str html_error_message (lit ''/predict'')"
proof -
  have "parseBody parse (contentType (headers r)) (body r) = Inl (ResponseError html_error_message)"
    using assms(2-5) by (simp add: parseBody_html)
  then have i: "interpretResponse parse r = Inl (ResponseError html_error_message)"
    by (simp add: interpretResponse_def Let_def)
  then have "attempt_outcome parse a = Inl (ResponseError html_error_message)"
    using assms(1) by (simp add: attempt_outcome_def)
  then have "fst (uploadOnce parse f a s) = Inl (ResponseError html_error_message)"
    by (simp add: uploadOnce_fst)
  moreover have "result (snd (uploadOnce parse f a s)) = result s"
    using assms(1) i by (rule uploadOnce_result_failed)
  ultimately show ?thesis
    using html_message_mentions by simp
qed

lemma truthy_prediction: "truthy (prediction (normalize d)) = usable_prediction d"
  by (cases d)
    (auto simp: normalize_def member_of_def usable_prediction_def truthy_def
          split: option.splits json.splits)

lemma map_of_filter_keys:
  "map_of (filter (\<lambda>(k, v). k \<in> K) kvs) k = (if k \<in> K then map_of kvs k else None)"
  by (induction kvs) auto

lemma member_of_recognized:
  assumes "k \<in> set recognized_fields"
  shows "member_of (JObj (filter (\<lambda>(k, v). k \<in> set recognized_fields) kvs)) k = member_of (JObj kvs) k"
  using assms by (simp add: member_of_def map_of_filter_keys)

lemma normalize_ignores_other_fields:
  "normalize (JObj kvs) = normalize (JObj (filter (\<lambda>(k, v). k \<in> set recognized_fields) kvs))"
proof -
  have "(lit ''prediction'') \<in> set recognized_fields" "(lit ''confidence'') \<in> set recognized_fields"
    "(lit ''topK'') \<in> set recognized_fields" "(lit ''version'') \<in> set recognized_fields"
    "(lit ''latencyMs'') \<in> set recognized_fields"
    by (simp_all add: recognized_fields_def)
  then show ?thesis
    by (simp add: normalize_def member_of_recognized split: option.splits json.splits)
qed

lemma normalize_object:
  "normalize (JObj kvs) =
     \<lparr> prediction = string_field kvs (lit ''prediction''),
       confidence = number_field kvs (lit ''confidence''),
       topK = array_field kvs (lit ''topK''),
       version = string_field kvs (lit ''version''),
       latencyMs = number_field kvs (lit ''latencyMs'') \<rparr>"
  by (simp add: normalize_def member_of_def string_field_def number_field_def array_field_def
      split: option.splits json.splits)

lemma normalize_JStr: "normalize (JStr b) = no_fields\<lparr> prediction := Some b \<rparr>"
  by (simp add: normalize_def member_of_def no_fields_def)

lemma normalize_other:
  "(\<forall>kvs. d \<noteq> JObj kvs) \<Longrightarrow> (\<forall>b. d \<noteq> JStr b) \<Longrightarrow> normalize d = no_fields"
  by (cases d) (simp_all add: normalize_def member_of_def no_fields_def)

text \<open>
  Claim C6. For a response that got past the HTML check with body \<open>d\<close> (parsed, where it
  was a string that looked like JSON and could be parsed): when \<open>d\<close> gives no usable
  prediction string, neither as the string member \<^verbatim>\<open>prediction\<close> of an object nor by being
  a string itself (an empty string is not usable), and the content type does not declare
  JSON, \<^verbatim>\<open>uploadOnce\<close> throws the error about the unexpected response format and stores
  no result. Otherwise it stores the normalised result, which is made of the five
  recognised members and of nothing else: from an object, \<^verbatim>\<open>prediction\<close> and \<^verbatim>\<open>version\<close> when
  they are strings, \<^verbatim>\<open>confidence\<close> and \<^verbatim>\<open>latencyMs\<close> when they are numbers, \<^verbatim>\<open>topK\<close> when it is an
  array, every other member being ignored; a string body gives its prediction alone, and
  any other body gives no field at all.
\<close>

theorem unusable_response_is_rejected:
  assumes "ending a = Responds r"
    and "parseBody parse (contentType (headers r)) (body r) = Inr d"
  shows "(\<not> usable_prediction d \<and> \<not> isJson (contentType (headers r)) \<longrightarrow>
            fst (uploadOnce parse f a s) = Inl (ResponseError unexpected_response_message)
            \<and> result (snd (uploadOnce parse f a s)) = result s)
    \<and> (usable_prediction d \<or> isJson (contentType (headers r)) \<longrightarrow>
            fst (uploadOnce parse f a s) = Inr ()
            \<and> result (snd (uploadOnce parse f a s)) = Some (normalize d))
    \<and> (\<forall>kvs. normalize (JObj kvs) =
               \<lparr> prediction = string_field kvs (lit ''prediction''),
                 confidence = number_field kvs (lit ''confidence''),
                 topK = array_field kvs (lit ''topK''),
                 version = string_field kvs (lit ''version''),
                 latencyMs = number_field kvs (lit ''latencyMs'') \<rparr>)
    \<and> (\<forall>kvs. normalize (JObj kvs) =
               normalize (JObj (filter (\<lambda>(k, v). k \<in> set recognized_fields) kvs)))
    \<and> (\<forall>b. normalize (JStr b) = no_fields\<lparr> prediction := Some b \<rparr>)
    \<and> ((\<forall>kvs. d \<noteq> JObj kvs) \<and> (\<forall>b. d \<noteq> JStr b) \<longrightarrow> normalize d = no_fields)"
proof -
  have i: "interpretResponse parse r =
      (if \<not> usable_prediction d \<and> \<not> isJson (contentType (headers r))
       then Inl (ResponseError unexpected_response_message) else Inr (normalize d))"
    using assms(2) by (simp add: interpretResponse_def Let_def truthy_prediction)
  have 1: "fst (uploadOnce parse f a s) = Inl (ResponseError unexpected_response_message)
      \<and> result (snd (uploadOnce parse f a s)) = result s"
    if "\<not> usable_prediction d \<and> \<not> isJson (contentType (headers r))"
  proof -
    from that i have j: "interpretResponse parse r = Inl (ResponseError unexpected_response_message)"
      by simp
    with assms(1) have "attempt_outcome parse a = Inl (ResponseError unexpected_response_message)"
      by (simp add: attempt_outcome_def)
    then show ?thesis
      using uploadOnce_result_failed [OF assms(1) j] by (simp add: uploadOnce_fst)
  qed
  have 2: "fst (uploadOnce parse f a s) = Inr ()
      \<and> result (snd (uploadOnce parse f a s)) = Some (normalize d)"
    if "usable_prediction d \<or> isJson (contentType (headers r))"
  proof -
    from that i have j: "interpretResponse parse r = Inr (normalize d)"
      by auto
    with assms(1) have "attempt_outcome parse a = Inr (normalize d)"
      by (simp add: attempt_outcome_def)
    then show ?thesis
      using uploadOnce_result_stored [OF assms(1) j] by (simp add: uploadOnce_fst)
  qed
  from 1 2 show ?thesis
    using normalize_object normalize_ignores_other_fields normalize_JStr normalize_other by blast
qed


theorem html_response_is_configuration_error_witness:
  "ending (responding html_page) = Responds html_page
   \<and> body html_page = JStr (lit ''<!DOCTYPE html><html><body>Not Found</body></html>'')
   \<and> \<not> startsWith (trim (lit ''<!DOCTYPE html><html><body>Not Found</body></html>'')) (lit ''{'')
   \<and> \<not> startsWith (trim (lit ''<!DOCTYPE html><html><body>Not Found</body></html>'')) (lit ''['')
   \<and> (looksLikeHTML (trim (lit ''<!DOCTYPE html><html><body>Not Found</body></html>''))
        \<or> includes_str (contentType (headers html_page)) (lit ''text/html''))
   \<and> fst (uploadOnce no_parse sample_file (responding html_page) initial_widget)
        = Inl (ResponseError html_error_message)
   \<and> result (snd (uploadOnce no_parse sample_file (responding html_page) initial_widget))
        = result initial_widget
   \<and> body nbsp_page = JStr ([160] @ lit ''<html>x'')
   \<and> looksLikeHTML (trim ([160] @ lit ''<html>x''))
   \<and> fst (uploadOnce no_parse sample_file (responding nbsp_page) initial_widget)
        = Inl (ResponseError html_error_message)"
proof -
  have 1: "ending (responding html_page) = Responds html_page"
    by (simp add: responding_def)
  have 2: "body html_page = JStr (lit ''<!DOCTYPE html><html><body>Not Found</body></html>'')"
    by (simp add: html_page_def)
  have 3: "\<not> startsWith (trim (lit ''<!DOCTYPE html><html><body>Not Found</body></html>'')) (lit ''{'')"
    by code_simp
  have 4: "\<not> startsWith (trim (lit ''<!DOCTYPE html><html><body>Not Found</body></html>'')) (lit ''['')"
    by code_simp
  have "looksLikeHTML (trim (lit ''<!DOCTYPE html><html><body>Not Found</body></html>''))"
    by code_simp
  then have 5: "looksLikeHTML (trim (lit ''<!DOCTYPE html><html><body>Not Found</body></html>''))
        \<or> includes_str (contentType (headers html_page)) (lit ''text/html'')" ..
  have 6: "ending (responding nbsp_page) = Responds nbsp_page"
    by (simp add: responding_def)
  have 7: "body nbsp_page = JStr ([160] @ lit ''<html>x'')"
    by (simp add: nbsp_page_def)
  have 8: "\<not> startsWith (trim ([160] @ lit ''<html>x'')) (lit ''{'')"
    by code_simp
  have 9: "\<not> startsWith (trim ([160] @ lit ''<html>x'')) (lit ''['')"
    by code_simp
  have 10: "looksLikeHTML (trim ([160] @ lit ''<html>x''))"
    by code_simp
  then have 11: "looksLikeHTML (trim ([160] @ lit ''<html>x''))
        \<or> includes_str (contentType (headers nbsp_page)) (lit ''text/html'')" ..
  note a = html_response_is_configuration_error [OF 1 2 3 4 5, of no_parse sample_file initial_widget]
  note b = html_response_is_configuration_error [OF 6 7 8 9 11, of no_parse sample_file initial_widget]
  from a b 1 2 3 4 5 7 10 show ?thesis by blast
qed

lemma plain_not_json: "\<not> isJson (contentType (headers plain_object))"
  unfolding plain_object_def by code_simp

lemma glioma_is_json: "isJson (contentType (headers glioma_response))"
  unfolding glioma_response_def by code_simp

lemma full_not_json: "\<not> isJson (contentType (headers full_response))"
  unfolding full_response_def by code_simp

lemma normalize_full:
  "normalize (body full_response) =
     \<lparr> prediction = Some (lit ''glioma''), confidence = Some (93 / 100),
       topK = Some [JStr (lit ''glioma''), JStr (lit ''notumor'')],
       version = Some (lit ''v2''), latencyMs = Some 120 \<rparr>"
  by (simp add: normalize_def member_of_def full_response_def)

theorem unusable_response_is_rejected_witness:
  "ending (responding plain_object) = Responds plain_object
   \<and> parseBody no_parse (contentType (headers plain_object)) (body plain_object) = Inr (JObj [(lit ''foo'', JNum 1)])
   \<and> \<not> usable_prediction (JObj [(lit ''foo'', JNum 1)]) \<and> \<not> isJson (contentType (headers plain_object))
   \<and> fst (uploadOnce no_parse sample_file (responding plain_object) initial_widget)
        = Inl (ResponseError unexpected_response_message)
   \<and> ending (responding full_response) = Responds full_response
   \<and> parseBody no_parse (contentType (headers full_response)) (body full_response)
        = Inr (body full_response)
   \<and> usable_prediction (body full_response) \<and> \<not> isJson (contentType (headers full_response))
   \<and> fst (uploadOnce no_parse sample_file (responding full_response) initial_widget) = Inr ()
   \<and> result (snd (uploadOnce no_parse sample_file (responding full_response) initial_widget))
        = Some \<lparr> prediction = Some (lit ''glioma''), confidence = Some (93 / 100),
                 topK = Some [JStr (lit ''glioma''), JStr (lit ''notumor'')],
                 version = Some (lit ''v2''), latencyMs = Some 120 \<rparr>"
proof -
  have 1: "ending (responding plain_object) = Responds plain_object"
    by (simp add: responding_def)
  have 2: "parseBody no_parse (contentType (headers plain_object)) (body plain_object)
      = Inr (JObj [(lit ''foo'', JNum 1)])"
    by (simp add: parseBody_def plain_object_def)
  have 3: "\<not> usable_prediction (JObj [(lit ''foo'', JNum 1)])"
    by (simp add: usable_prediction_def)
  have 4: "ending (responding full_response) = Responds full_response"
    by (simp add: responding_def)
  have 5: "parseBody no_parse (contentType (headers full_response)) (body full_response)
      = Inr (body full_response)"
    by (simp add: parseBody_def full_response_def)
  have 6: "usable_prediction (body full_response)"
    by (simp add: usable_prediction_def full_response_def)
  note a = unusable_response_is_rejected [OF 1 2, of sample_file initial_widget]
  note b = unusable_response_is_rejected [OF 4 5, of sample_file initial_widget]
  from a 3 plain_not_json
  have 7: "fst (uploadOnce no_parse sample_file (responding plain_object) initial_widget)
        = Inl (ResponseError unexpected_response_message)"
    by blast
  from b 6
  have 8: "fst (uploadOnce no_parse sample_file (responding full_response) initial_widget) = Inr ()
      \<and> result (snd (uploadOnce no_parse sample_file (responding full_response) initial_widget))
          = Some (normalize (body full_response))"
    by blast
  from 1 2 3 4 5 6 7 8 plain_not_json full_not_json show ?thesis
    by (simp only: normalize_full simp_thms)
qed

text \<open>
  A body that is an empty object behind a no-break space, sent as HTML: the space is
  trimmed, the body is parsed, and the error is the one about the unexpected format.
\<close>

lemma nbsp_object_is_parsed:
  "interpretResponse parse_braces nbsp_object = Inl (ResponseError unexpected_response_message)"
proof -
  have t: "trim (160 # lit ''{}'') = lit ''{}''" by code_simp
  have j: "startsWith (lit ''{}'') (lit ''{'')" by code_simp
  have n: "\<not> isJson (contentType (headers nbsp_object))"
    unfolding nbsp_object_def by code_simp
  have "parseBody parse_braces (contentType (headers nbsp_object)) (body nbsp_object) = Inr (JObj [])"
    by (simp add: parseBody_def nbsp_object_def t j parse_braces_def Let_def)
  moreover have "\<not> usable_prediction (JObj [])"
    by (simp add: usable_prediction_def)
  ultimately show ?thesis
    using n by (simp add: interpretResponse_def Let_def truthy_prediction)
qed


section \<open>Properties of the validator\<close>

lemma validateBasic_checks: "validateBasic f = type_check (ftype f) @ size_check (fsize f)"
  by (simp add: validateBasic_def type_check_def size_check_def Let_def)

lemma validateDimensions_check: "validateDimensions f = dimension_check (decoded f)"
  by (auto simp: validateDimensions_def dimension_check_def split: option.splits)

lemma unsupported_message_prefix: "startsWith (unsupported_type_message t) (lit ''Unsupported file type: '')"
  by (simp add: unsupported_type_message_def startsWith_def)

text \<open>
  Claim C4. The violations of a candidate file are those of the type check, of the size
  check and of the dimension check, each decided by its own attribute alone and all of them
  collected, in that order. They become the list of errors; the file is accepted exactly
  when the list is empty. A file whose declared type is outside the allow-list always has
  a list that is not empty and contains the type message, whatever its size and dimensions.
\<close>

theorem validator_collects_all_violations:
  "validateBasic f @ validateDimensions f
      = type_check (ftype f) @ size_check (fsize f) @ dimension_check (decoded f)
   \<and> errors (setFileWithValidation f s) = validateBasic f @ validateDimensions f
   \<and> (validateBasic f @ validateDimensions f = [] \<longrightarrow>
        status (setFileWithValidation f s) = Ready \<and> file_st (setFileWithValidation f s) = Some f)
   \<and> (validateBasic f @ validateDimensions f \<noteq> [] \<longrightarrow>
        status (setFileWithValidation f s) = Error \<and> file_st (setFileWithValidation f s) = file_st s)
   \<and> (ftype f \<notin> set ALLOWED_TYPES \<longrightarrow>
        validateBasic f @ validateDimensions f \<noteq> []
        \<and> unsupported_type_message (ftype f) \<in> set (validateBasic f @ validateDimensions f)
        \<and> startsWith (unsupported_type_message (ftype f)) (lit ''Unsupported file type: ''))"
proof (intro conjI impI)
  show "validateBasic f @ validateDimensions f
      = type_check (ftype f) @ size_check (fsize f) @ dimension_check (decoded f)"
    by (simp add: validateBasic_checks validateDimensions_check)
next
  show "errors (setFileWithValidation f s) = validateBasic f @ validateDimensions f"
    by (simp add: setFileWithValidation_def Let_def revokePreview_def split: option.splits)
next
  assume "validateBasic f @ validateDimensions f = []"
  then show "status (setFileWithValidation f s) = Ready" and "file_st (setFileWithValidation f s) = Some f"
    by (simp_all add: setFileWithValidation_def Let_def)
next
  assume "validateBasic f @ validateDimensions f \<noteq> []"
  then show "status (setFileWithValidation f s) = Error" and "file_st (setFileWithValidation f s) = file_st s"
    by (simp_all add: setFileWithValidation_def Let_def)
next
  assume a: "ftype f \<notin> set ALLOWED_TYPES"
  then have t: "type_check (ftype f) = [unsupported_type_message (ftype f)]"
    by (simp add: type_check_def)
  then show "validateBasic f @ validateDimensions f \<noteq> []"
    by (simp add: validateBasic_checks)
  from t show "unsupported_type_message (ftype f) \<in> set (validateBasic f @ validateDimensions f)"
    by (simp add: validateBasic_checks)
  show "startsWith (unsupported_type_message (ftype f)) (lit ''Unsupported file type: '')"
    by (rule unsupported_message_prefix)
qed

lemma bad_file_violations:
  "validateBasic bad_file @ validateDimensions bad_file =
     [unsupported_type_message (lit ''application/pdf''), too_large_message 20971520, too_small_message 100 200]"
  by (simp add: validateBasic_def validateDimensions_def bad_file_def ALLOWED_TYPES_def
      MAX_SIZE_BYTES_def MIN_WIDTH_def MIN_HEIGHT_def Let_def)

lemma sample_file_accepted: "validateBasic sample_file @ validateDimensions sample_file = []"
  by (simp add: validateBasic_def validateDimensions_def sample_file_def ALLOWED_TYPES_def
      MAX_SIZE_BYTES_def MIN_WIDTH_def MIN_HEIGHT_def Let_def)

theorem validator_collects_all_violations_witness:
  "ftype bad_file \<notin> set ALLOWED_TYPES
   \<and> validateBasic bad_file @ validateDimensions bad_file \<noteq> []
   \<and> errors (setFileWithValidation bad_file initial_widget) =
       [unsupported_type_message (lit ''application/pdf''), too_large_message 20971520, too_small_message 100 200]
   \<and> status (setFileWithValidation bad_file initial_widget) = Error
   \<and> validateBasic sample_file @ validateDimensions sample_file = []
   \<and> status (setFileWithValidation sample_file initial_widget) = Ready
   \<and> file_st (setFileWithValidation sample_file initial_widget) = Some sample_file"
proof -
  note bad = validator_collects_all_violations [of bad_file initial_widget]
  note good = validator_collects_all_violations [of sample_file initial_widget]
  have 1: "ftype bad_file \<notin> set ALLOWED_TYPES"
    by (simp add: bad_file_def ALLOWED_TYPES_def)
  with bad have 2: "validateBasic bad_file @ validateDimensions bad_file \<noteq> []"
    by blast
  from bad have 3: "errors (setFileWithValidation bad_file initial_widget) =
       [unsupported_type_message (lit ''application/pdf''), too_large_message 20971520, too_small_message 100 200]"
    by (simp only: bad_file_violations)
  from bad 2 have 4: "status (setFileWithValidation bad_file initial_widget) = Error"
    by blast
  from good sample_file_accepted
  have 5: "status (setFileWithValidation sample_file initial_widget) = Ready
      \<and> file_st (setFileWithValidation sample_file initial_widget) = Some sample_file"
    by blast
  from 1 2 3 4 5 sample_file_accepted show ?thesis by blast
qed


section \<open>Properties of the handlers\<close>

lemma abortCurrent_idem: "abortCurrent (abortCurrent s) = abortCurrent s"
  by (cases "controllerRef s") (simp_all add: abortCurrent_def abort_def)

lemma resetAll_fields:
  "status (resetAll s) = Idle" "file_st (resetAll s) = None" "previewUrl (resetAll s) = None"
  "errors (resetAll s) = []" "result (resetAll s) = None" "controllerRef (resetAll s) = controllerRef s"
  by (simp_all add: resetAll_def revokePreview_def abortCurrent_def abort_def split: option.splits)

lemma resetAll_inflight:
  "inflight (resetAll s) = (if inflight s = controllerRef s then None else inflight s)"
  by (auto simp: resetAll_def revokePreview_def abortCurrent_def abort_def split: option.splits)

lemma resetAll_revokes: "previewUrl s = Some u \<Longrightarrow> u \<in> revoked (resetAll s)"
  by (simp add: resetAll_def revokePreview_def abortCurrent_def abort_def split: option.splits)

lemma resetAll_aborts: "controllerRef s = Some c \<Longrightarrow> c \<in> aborted (resetAll s)"
  by (simp add: resetAll_def revokePreview_def abortCurrent_def abort_def split: option.splits)

lemma resetAll_idem: "resetAll (resetAll s) = resetAll s"
proof (cases "controllerRef s")
  case None
  then show ?thesis
    by (cases "previewUrl s") (simp_all add: resetAll_def revokePreview_def abortCurrent_def)
next
  case (Some c)
  then show ?thesis
    by (cases "previewUrl s") (simp_all add: resetAll_def revokePreview_def abortCurrent_def abort_def)
qed

text \<open>
  Claim C9. \<^verbatim>\<open>resetAll\<close> is idempotent: a second call changes nothing. After a call the
  status is idle, no file is selected, there is no preview (the one there was has been
  released), the controller the reference held has been aborted, and no request is on the
  wire, provided the request that was on the wire, if any, was the one the reference held.
\<close>

theorem reset_is_idempotent:
  "resetAll (resetAll s) = resetAll s
   \<and> status (resetAll s) = Idle \<and> file_st (resetAll s) = None \<and> previewUrl (resetAll s) = None
   \<and> (\<forall>u. previewUrl s = Some u \<longrightarrow> u \<in> revoked (resetAll s))
   \<and> (\<forall>c. controllerRef s = Some c \<longrightarrow> c \<in> aborted (resetAll s))
   \<and> ((inflight s \<noteq> None \<longrightarrow> inflight s = controllerRef s) \<longrightarrow> inflight (resetAll s) = None)"
  using resetAll_idem [of s] resetAll_fields(1-3) [of s] resetAll_revokes [of s] resetAll_aborts [of s]
  by (auto simp: resetAll_inflight)

lemma uploading_widget_fields:
  "previewUrl uploading_widget = Some 0" "controllerRef uploading_widget = Some 0"
  "inflight uploading_widget = Some 0" "status uploading_widget = Uploading"
  "file_st uploading_widget = Some sample_file"
  by (simp_all add: uploading_widget_def beginAttempt_def ready_widget_def setFileWithValidation_def
      validateBasic_def validateDimensions_def sample_file_def ALLOWED_TYPES_def MAX_SIZE_BYTES_def
      MIN_WIDTH_def MIN_HEIGHT_def revokePreview_def initial_widget_def Let_def)

theorem reset_is_idempotent_witness:
  "previewUrl uploading_widget = Some 0 \<and> controllerRef uploading_widget = Some 0
   \<and> inflight uploading_widget = controllerRef uploading_widget
   \<and> status (resetAll uploading_widget) = Idle
   \<and> 0 \<in> revoked (resetAll uploading_widget) \<and> 0 \<in> aborted (resetAll uploading_widget)
   \<and> inflight (resetAll uploading_widget) = None
   \<and> resetAll (resetAll uploading_widget) = resetAll uploading_widget"
  using reset_is_idempotent [of uploading_widget] by (simp add: uploading_widget_fields)

text \<open>
  Claim C10. \<^verbatim>\<open>handleUpload\<close> without a selected file issues no request: it sets the status
  to error and replaces the errors by the single message asking to select an image, and
  leaves everything else, the previous result included, as it was.
\<close>

theorem upload_without_file:
  assumes "file_st s = None"
  shows "handleUpload env s = s\<lparr> errors := [(lit ''Please select an image before uploading.'')], status := Error \<rparr>
    \<and> requests (handleUpload env s) = requests s
    \<and> inflight (handleUpload env s) = inflight s
    \<and> result (handleUpload env s) = result s
    \<and> toasts (handleUpload env s) = toasts s"
  using assms by (simp add: handleUpload_def no_file_message_def)

theorem upload_without_file_witness:
  "file_st initial_widget = None
   \<and> status (handleUpload (env_of (\<lambda>k. responding glioma_response)) initial_widget) = Error
   \<and> errors (handleUpload (env_of (\<lambda>k. responding glioma_response)) initial_widget)
       = [(lit ''Please select an image before uploading.'')]
   \<and> requests (handleUpload (env_of (\<lambda>k. responding glioma_response)) initial_widget) = 0"
proof -
  have 1: "file_st initial_widget = None" by (simp add: initial_widget_def)
  have 2: "requests initial_widget = 0" by (simp add: initial_widget_def)
  from upload_without_file [OF 1, of "env_of (\<lambda>k. responding glioma_response)"] 1 2
  show ?thesis by simp
qed


section \<open>Properties of the double-precision operations\<close>

lemma bitlength_bounds:
  "0 < n \<Longrightarrow> 2 ^ (bitlength n - 1) \<le> n \<and> n < 2 ^ bitlength n"
proof (induction n rule: bitlength.induct)
  case (1 n)
  show ?case
  proof (cases "n div 2 = 0")
    case True
    with "1.prems" have "n = 1" by auto
    then show ?thesis by (simp add: bitlength.simps)
  next
    case False
    then have h: "0 < n div 2" by simp
    with "1.IH" "1.prems" have ih: "2 ^ (bitlength (n div 2) - 1) \<le> n div 2"
      "n div 2 < 2 ^ bitlength (n div 2)" by simp_all
    have b: "bitlength n = Suc (bitlength (n div 2))"
      using "1.prems" by (subst bitlength.simps) simp
    have pos: "0 < bitlength (n div 2)"
      using h by (subst bitlength.simps) simp
    then have "(2::nat) ^ (bitlength n - 1) = 2 * 2 ^ (bitlength (n div 2) - 1)"
      using b by (cases "bitlength (n div 2)") simp_all
    with ih(1) have lo: "2 ^ (bitlength n - 1) \<le> n" by simp
    from ih(2) have "n < 2 * 2 ^ bitlength (n div 2)" by simp
    with b lo show ?thesis by simp
  qed
qed

text \<open>Two to an integer power, as \<open>dval\<close> and \<open>fl_quot\<close> write it.\<close>

lemma scale_powr: "2 ^ nat k / 2 ^ nat (- k) = (2::real) powr (real_of_int k)"
proof (cases "0 \<le> k")
  case True
  then have "(2::real) powr (real_of_int k) = 2 ^ nat k"
    by (simp add: powr_real_of_int)
  with True show ?thesis by simp
next
  case False
  then have "(2::real) powr (real_of_int k) = inverse (2 ^ nat (- k))"
    by (simp add: powr_real_of_int)
  with False show ?thesis by (simp add: divide_inverse)
qed

lemma dval_powr: "dval (Double m e) = real m * 2 powr (real_of_int e)"
proof -
  have "dval (Double m e) = real m * (2 ^ nat e / 2 ^ nat (- e))" by simp
  then show ?thesis by (simp only: scale_powr)
qed

lemma roundHalfEven_error:
  assumes "0 < d"
  shows "\<bar>real (roundHalfEven n d) - real n / real d\<bar> \<le> 1 / 2"
proof -
  define q r where "q = n div d" and "r = n mod d"
  have n: "real n = real q * real d + real r"
    unfolding q_def r_def by (metis div_mult_mod_eq of_nat_add of_nat_mult)
  have r: "r < d" unfolding r_def using assms by simp
  have d: "0 < real d" using assms by simp
  have quot: "real n / real d = real q + real r / real d"
    using d n by (simp add: field_simps)
  consider "2 * r < d" | "d < 2 * r" | "2 * r = d" by linarith
  then show ?thesis
  proof cases
    case 1
    then have "roundHalfEven n d = q"
      by (simp add: roundHalfEven_def Let_def q_def r_def)
    moreover from 1 have "real r / real d \<le> 1 / 2"
      using d by (simp add: field_simps)
    moreover have "0 \<le> real r / real d" by simp
    ultimately show ?thesis using quot by simp
  next
    case 2
    then have "roundHalfEven n d = Suc q"
      by (simp add: roundHalfEven_def Let_def q_def r_def)
    moreover from 2 have "1 / 2 \<le> real r / real d"
      using d by (simp add: field_simps)
    moreover from r have "real r / real d \<le> 1"
      using d by (simp add: field_simps)
    ultimately show ?thesis using quot by simp
  next
    case 3
    then have "roundHalfEven n d = q \<or> roundHalfEven n d = Suc q"
      by (simp add: roundHalfEven_def Let_def q_def r_def)
    moreover from 3 have "real r / real d = 1 / 2"
      using d by (simp add: field_simps)
    ultimately show ?thesis using quot by auto
  qed
qed


lemma bitlength_powr:
  assumes "0 < n"
  shows "2 powr (real (bitlength n) - 1) \<le> real n" and "real n \<le> 2 powr (real (bitlength n))"
proof -
  from assms have b: "2 ^ (bitlength n - 1) \<le> n" "n < 2 ^ bitlength n"
    using bitlength_bounds by simp_all
  have pos: "0 < bitlength n"
    using assms by (subst bitlength.simps) simp
  have "(2::real) powr (real (bitlength n) - 1) = 2 powr (real (bitlength n - 1))"
    using pos by (simp add: of_nat_diff)
  also have "\<dots> = 2 ^ (bitlength n - 1)"
    by (simp add: powr_realpow)
  also have "\<dots> \<le> real n"
    using b(1) by (metis of_nat_le_iff of_nat_numeral of_nat_power)
  finally show "2 powr (real (bitlength n) - 1) \<le> real n" .
  have "real n \<le> 2 ^ bitlength n"
    using b(2) by (metis less_imp_le of_nat_le_iff of_nat_numeral of_nat_power)
  also have "\<dots> = 2 powr (real (bitlength n))"
    by (simp add: powr_realpow)
  finally show "real n \<le> 2 powr (real (bitlength n))" .
qed

lemma scaled_quotient:
  assumes "0 < b"
  shows "real (a * 2 ^ nat k) / real (b * 2 ^ nat (- k)) = real a / real b * 2 powr (real_of_int k)"
proof -
  have "real (a * 2 ^ nat k) / real (b * 2 ^ nat (- k)) = real a / real b * (2 ^ nat k / 2 ^ nat (- k))"
    by simp
  then show ?thesis by (simp only: scale_powr)
qed

lemma scaled_test:
  assumes "0 < b"
  shows "(a * 2 ^ nat k < 2 ^ 52 * (b * 2 ^ nat (- k))) = (real a / real b * 2 powr (real_of_int k) < 2 ^ 52)"
proof -
  have pos: "0 < real (b * 2 ^ nat (- k))" using assms by simp
  have "(a * 2 ^ nat k < 2 ^ 52 * (b * 2 ^ nat (- k))) = (real (a * 2 ^ nat k) < real (2 ^ 52 * (b * 2 ^ nat (- k))))"
    by (simp only: of_nat_less_iff)
  also have "\<dots> = (real (a * 2 ^ nat k) < 2 ^ 52 * real (b * 2 ^ nat (- k)))"
    by simp
  also have "\<dots> = (real (a * 2 ^ nat k) / real (b * 2 ^ nat (- k)) < 2 ^ 52)"
    using pos by (simp only: pos_divide_less_eq)
  finally show ?thesis
    using assms by (simp only: scaled_quotient)
qed

text \<open>
  The quotient is scaled to at least 2 to the 52, so rounding it to a whole number changes
  it by no more than one part in 2 to the 53.
\<close>

lemma fl_quot_error:
  assumes "0 < a" and "0 < b"
  shows "\<bar>dval (fl_quot a b e) - real a / real b * 2 powr (real_of_int e)\<bar>
     \<le> real a / real b * 2 powr (real_of_int e) / 2 ^ 53"
proof -
  define k0 where "k0 = 52 + int (bitlength b) - int (bitlength a)"
  define k where "k = (if a * 2 ^ nat k0 < 2 ^ 52 * (b * 2 ^ nat (- k0)) then k0 + 1 else k0)"
  define m where "m = roundHalfEven (a * 2 ^ nat k) (b * 2 ^ nat (- k))"
  define Q where "Q = real a / real b"
  define X where "X = Q * 2 powr (real_of_int k)"
  have Q: "0 < Q" using assms by (simp add: Q_def)
  have fl: "fl_quot a b e = Double m (e - k)"
    using assms(1) by (simp add: fl_quot_def Let_def k0_def k_def m_def)
  have den: "0 < b * 2 ^ nat (- k)" using assms(2) by simp
  have "\<bar>real m - real (a * 2 ^ nat k) / real (b * 2 ^ nat (- k))\<bar> \<le> 1 / 2"
    unfolding m_def using den by (rule roundHalfEven_error)
  then have err: "\<bar>real m - X\<bar> \<le> 1 / 2"
    using assms(2) by (simp only: scaled_quotient X_def Q_def)
  have lower: "2 ^ 52 \<le> X"
  proof (cases "a * 2 ^ nat k0 < 2 ^ 52 * (b * 2 ^ nat (- k0))")
    case False
    then have "k = k0" by (simp add: k_def)
    with False show ?thesis
      using scaled_test [OF assms(2), of a k0] by (simp add: X_def Q_def)
  next
    case True
    then have k: "k = k0 + 1" by (simp add: k_def)
    have a: "2 powr (real (bitlength a) - 1) \<le> real a"
      using assms(1) by (rule bitlength_powr)
    have b: "real b \<le> 2 powr (real (bitlength b))"
      using assms(2) by (rule bitlength_powr)
    have "2 powr (real (bitlength a) - 1) / 2 powr (real (bitlength b)) \<le> Q"
      unfolding Q_def using a b assms(2) by (intro frac_le) simp_all
    then have "2 powr (real (bitlength a) - 1 - real (bitlength b)) \<le> Q"
      by (simp only: powr_diff)
    then have "2 powr (real (bitlength a) - 1 - real (bitlength b)) * 2 powr (real_of_int k) \<le> X"
      unfolding X_def by (intro mult_right_mono) simp_all
    moreover have "real (bitlength a) - 1 - real (bitlength b) + real_of_int k = 52"
      by (simp add: k k0_def)
    ultimately have "2 powr 52 \<le> X"
      by (simp only: powr_add [symmetric])
    then show ?thesis by simp
  qed
  have x: "Q * 2 powr (real_of_int e) = X * 2 powr (real_of_int (e - k))"
  proof -
    have "X * 2 powr (real_of_int (e - k)) = Q * (2 powr (real_of_int k) * 2 powr (real_of_int (e - k)))"
      by (simp add: X_def)
    also have "2 powr (real_of_int k) * 2 powr (real_of_int (e - k)) = (2::real) powr (real_of_int e)"
      by (simp only: powr_add [symmetric]) simp
    finally show ?thesis by simp
  qed
  have dv: "dval (fl_quot a b e) = real m * 2 powr (real_of_int (e - k))"
    by (simp only: fl dval_powr)
  define u where "u = (2::real) powr (real_of_int (e - k))"
  have u: "0 < u" by (simp add: u_def)
  have "\<bar>dval (fl_quot a b e) - Q * 2 powr (real_of_int e)\<bar> = \<bar>real m - X\<bar> * u"
  proof -
    have "dval (fl_quot a b e) - Q * 2 powr (real_of_int e) = (real m - X) * u"
      by (simp only: dv x u_def left_diff_distrib)
    then show ?thesis using u by (simp add: abs_mult)
  qed
  also have "\<dots> \<le> (1 / 2) * u"
    using err u by (intro mult_right_mono) simp_all
  also have "\<dots> \<le> (X / 2 ^ 53) * u"
  proof -
    from lower have "(1::real) / 2 \<le> X / 2 ^ 53" by simp
    then show ?thesis using u by (intro mult_right_mono) simp_all
  qed
  also have "\<dots> = Q * 2 powr (real_of_int e) / 2 ^ 53"
    by (simp only: x u_def) simp
  finally show ?thesis
    by (simp only: Q_def)
qed

lemma fl_quot_zero: "dval (fl_quot 0 b e) = 0"
  by (simp add: fl_quot_def)


lemma div_nat_error:
  assumes "0 < a" and "0 < b"
  shows "\<bar>dval (div_nat a b) - real a / real b\<bar> \<le> real a / real b / 2 ^ 53"
  using fl_quot_error [OF assms, of 0] by (simp add: div_nat_def)

lemma div_nat_zero: "dval (div_nat 0 b) = 0"
  by (simp add: div_nat_def fl_quot_zero)

lemma times_100_error: "\<bar>dval (times_100 x) - 100 * dval x\<bar> \<le> 100 * dval x / 2 ^ 53"
proof (cases x)
  case (Double m e)
  show ?thesis
  proof (cases "m = 0")
    case True
    with Double show ?thesis by (simp add: fl_quot_def)
  next
    case False
    then have "0 < m * 100" by simp
    from fl_quot_error [OF this, of 1 e]
    have "\<bar>dval (fl_quot (m * 100) 1 e) - real (m * 100) / real 1 * 2 powr (real_of_int e)\<bar>
        \<le> real (m * 100) / real 1 * 2 powr (real_of_int e) / 2 ^ 53"
      by simp
    moreover have "real (m * 100) / real 1 * 2 powr (real_of_int e) = 100 * dval (Double m e)"
      by (simp add: dval_powr del: dval.simps)
    ultimately show ?thesis
      using Double by (simp only: times_100.simps)
  qed
qed

lemma nat_div_double_error:
  assumes "0 < a" and "0 < dval x"
  shows "\<bar>dval (nat_div_double a x) - real a / dval x\<bar> \<le> real a / dval x / 2 ^ 53"
proof (cases x)
  case (Double m e)
  with assms(2) have m: "0 < m"
    by (cases "m = 0") simp_all
  have "real a / real m * 2 powr (real_of_int (- e)) = real a / (real m * 2 powr (real_of_int e))"
    by (simp add: powr_minus field_simps)
  then have "real a / real m * 2 powr (real_of_int (- e)) = real a / dval (Double m e)"
    by (simp only: dval_powr)
  with fl_quot_error [OF assms(1) m, of "- e"] Double show ?thesis
    by (simp only: nat_div_double.simps)
qed

lemma nat_div_double_zero: "dval (nat_div_double 0 x) = 0"
  by (cases x) (simp add: fl_quot_def)

lemma relative_bounds:
  assumes "\<bar>y - x\<bar> \<le> (x::real) / 2 ^ 53"
  shows "x * (1 - 1 / 2 ^ 53) \<le> y" and "y \<le> x * (1 + 1 / 2 ^ 53)"
proof -
  define d where "d = x / 2 ^ 53"
  from assms have "y - x \<le> d" and "x - y \<le> d"
    unfolding d_def by linarith+
  moreover have "x * (1 - 1 / 2 ^ 53) = x - d" and "x * (1 + 1 / 2 ^ 53) = x + d"
    by (simp_all add: d_def algebra_simps)
  ultimately show "x * (1 - 1 / 2 ^ 53) \<le> y" and "y \<le> x * (1 + 1 / 2 ^ 53)"
    by linarith+
qed

lemma relative_positive:
  assumes "\<bar>y - x\<bar> \<le> (x::real) / 2 ^ 53" and "0 < x"
  shows "0 < y"
proof -
  have "0 < x * (1 - 1 / 2 ^ 53)" using assms(2) by simp
  with relative_bounds(1) [OF assms(1)] show ?thesis by simp
qed

text \<open>
  A quotient computed in double precision from a divisor that is itself only near the
  exact one.
\<close>

lemma quotient_bounds:
  assumes "0 < (a::real)" and "0 < (b::real)" and "0 < lo"
    and "b * lo \<le> b'" and "b' \<le> b * hi"
    and "\<bar>q - a / b'\<bar> \<le> a / b' / 2 ^ 53"
  shows "a / b * ((1 - 1 / 2 ^ 53) / hi) \<le> q" and "q \<le> a / b * ((1 + 1 / 2 ^ 53) / lo)"
proof -
  have blo: "0 < b * lo" using assms(2,3) by simp
  with assms(4) have b': "0 < b'" by simp
  with assms(5) have bhi: "0 < b * hi" by simp
  have up: "a / b' \<le> a / (b * lo)"
    using assms(1,4) blo by (intro divide_left_mono) simp_all
  have down: "a / (b * hi) \<le> a / b'"
    using assms(1,5) b' bhi by (intro divide_left_mono) simp_all
  have "q \<le> a / b' * (1 + 1 / 2 ^ 53)"
    using assms(6) by (rule relative_bounds)
  also have "\<dots> \<le> a / (b * lo) * (1 + 1 / 2 ^ 53)"
    using up by (intro mult_right_mono) simp_all
  finally show "q \<le> a / b * ((1 + 1 / 2 ^ 53) / lo)"
    by simp
  have "a / b * ((1 - 1 / 2 ^ 53) / hi) = a / (b * hi) * (1 - 1 / 2 ^ 53)"
    by simp
  also have "\<dots> \<le> a / b' * (1 - 1 / 2 ^ 53)"
    using down by (intro mult_right_mono) simp_all
  also have "\<dots> \<le> q"
    using assms(6) by (rule relative_bounds)
  finally show "a / b * ((1 - 1 / 2 ^ 53) / hi) \<le> q" .
qed

lemma max_near:
  assumes "\<bar>a' - a\<bar> \<le> a / 2 ^ 53" and "\<bar>b' - b\<bar> \<le> b / 2 ^ 53" and "0 \<le> (a::real)" and "0 \<le> b"
  shows "max a b * (1 - 1 / 2 ^ 53) \<le> max a' b'" and "max a' b' \<le> max a b * (1 + 1 / 2 ^ 53)"
proof -
  note a = relative_bounds [OF assms(1)] and b = relative_bounds [OF assms(2)]
  have lo: "(0::real) \<le> 1 - 1 / 2 ^ 53" by simp
  have hi: "(0::real) \<le> 1 + 1 / 2 ^ 53" by simp
  have "a * (1 - 1 / 2 ^ 53) \<le> max a' b'" "b * (1 - 1 / 2 ^ 53) \<le> max a' b'"
    using a(1) b(1) by simp_all
  then show "max a b * (1 - 1 / 2 ^ 53) \<le> max a' b'"
    by (cases "a \<le> b") (simp_all only: max_absorb1 max_absorb2 linorder_not_le less_imp_le)
  have "a' \<le> max a b * (1 + 1 / 2 ^ 53)"
    using a(2) mult_right_mono [OF max.cobounded1 [of a b] hi] by simp
  moreover have "b' \<le> max a b * (1 + 1 / 2 ^ 53)"
    using b(2) mult_right_mono [OF max.cobounded2 [of b a] hi] by simp
  ultimately show "max a' b' \<le> max a b * (1 + 1 / 2 ^ 53)"
    by simp
qed


section \<open>Properties of the progress callback\<close>

lemma percent_near:
  assumes "0 < t" and "l \<le> t"
  shows "0 \<le> dval (times_100 (div_nat l t))"
    and "\<bar>dval (times_100 (div_nat l t)) - 100 * real l / real t\<bar> \<le> 1 / 4"
proof -
  define Q where "Q = real l / real t"
  define v where "v = dval (div_nat l t)"
  define p where "p = dval (times_100 (div_nat l t))"
  have Q: "0 \<le> Q" "Q \<le> 1" using assms by (simp_all add: Q_def)
  have v: "\<bar>v - Q\<bar> \<le> Q / 2 ^ 53"
  proof (cases "l = 0")
    case True
    then show ?thesis by (simp add: v_def Q_def div_nat_zero)
  next
    case False
    then have "0 < l" by simp
    from div_nat_error [OF this assms(1)] show ?thesis by (simp only: v_def Q_def)
  qed
  have p: "\<bar>p - 100 * v\<bar> \<le> 100 * v / 2 ^ 53"
    unfolding p_def v_def by (rule times_100_error)
  note vb = relative_bounds [OF v]
  have v0: "0 \<le> v"
  proof -
    have "0 \<le> Q * (1 - 1 / 2 ^ 53)" using Q(1) by simp
    with vb(1) show ?thesis by simp
  qed
  have v2: "v \<le> 2"
  proof -
    have "Q * (1 + 1 / 2 ^ 53) \<le> 1 * (1 + 1 / 2 ^ 53)"
      using Q(2) by (intro mult_right_mono) simp_all
    with vb(2) show ?thesis by simp
  qed
  define c where "c = (1::real) / 2 ^ 53"
  have c: "0 < c" "c \<le> 1 / 1200" by (simp_all add: c_def)
  have "100 * v / 2 ^ 53 \<le> 100 * 2 / 2 ^ 53" using v2 by simp
  with p have pc: "\<bar>p - 100 * v\<bar> \<le> 200 * c" by (simp add: c_def)
  have "Q / 2 ^ 53 \<le> 1 / 2 ^ 53" using Q(2) by simp
  with v have vc: "\<bar>v - Q\<bar> \<le> c" by (simp add: c_def)
  from pc vc c have "\<bar>p - 100 * Q\<bar> \<le> 1 / 4" by linarith
  then show "\<bar>dval (times_100 (div_nat l t)) - 100 * real l / real t\<bar> \<le> 1 / 4"
    by (simp add: p_def Q_def)
  have "0 \<le> 100 * v * (1 - 1 / 2 ^ 53)" using v0 by simp
  with relative_bounds(1) [OF p] show "0 \<le> dval (times_100 (div_nat l t))"
    by (simp add: p_def)
qed

lemma percent_range:
  assumes "0 < t" and "l \<le> t"
  shows "0 \<le> mathRound (times_100 (div_nat l t))" and "mathRound (times_100 (div_nat l t)) \<le> 100"
proof -
  note n = percent_near [OF assms]
  have Q: "100 * real l / real t \<le> 100" using assms by (simp add: field_simps)
  from n(1) show "0 \<le> mathRound (times_100 (div_nat l t))"
    by (simp add: mathRound_def)
  from n(2) Q have "dval (times_100 (div_nat l t)) + 1 / 2 < 101" by linarith
  then have "\<lfloor>dval (times_100 (div_nat l t)) + 1 / 2\<rfloor> < 101"
    by (simp add: floor_less_iff)
  then show "mathRound (times_100 (div_nat l t)) \<le> 100"
    by (simp add: mathRound_def)
qed

lemma floor_succ: "\<lfloor>(x::real) + 1\<rfloor> = \<lfloor>x\<rfloor> + 1"
  using floor_add_int [of x 1] by simp

lemma percent_close:
  assumes "0 < t" and "l \<le> t"
  shows "\<bar>mathRound (times_100 (div_nat l t)) - claimed_percent l t\<bar> \<le> 1"
proof -
  define p where "p = dval (times_100 (div_nat l t))"
  define c where "c = 100 * real l / real t"
  from percent_near(2) [OF assms] have near: "\<bar>p - c\<bar> \<le> 1 / 4" by (simp add: p_def c_def)
  have "p + 1 / 2 \<le> (c + 1 / 2) + 1" using near by linarith
  then have "\<lfloor>p + 1 / 2\<rfloor> \<le> \<lfloor>(c + 1 / 2) + 1\<rfloor>" by (rule floor_mono)
  moreover have "\<lfloor>(c + 1 / 2) + 1\<rfloor> = \<lfloor>c + 1 / 2\<rfloor> + 1" by (rule floor_succ)
  ultimately have 1: "\<lfloor>p + 1 / 2\<rfloor> \<le> \<lfloor>c + 1 / 2\<rfloor> + 1" by (simp only:)
  have "c + 1 / 2 \<le> (p + 1 / 2) + 1" using near by linarith
  then have "\<lfloor>c + 1 / 2\<rfloor> \<le> \<lfloor>(p + 1 / 2) + 1\<rfloor>" by (rule floor_mono)
  moreover have "\<lfloor>(p + 1 / 2) + 1\<rfloor> = \<lfloor>p + 1 / 2\<rfloor> + 1" by (rule floor_succ)
  ultimately have 2: "\<lfloor>c + 1 / 2\<rfloor> \<le> \<lfloor>p + 1 / 2\<rfloor> + 1" by (simp only:)
  have "mathRound (times_100 (div_nat l t)) = \<lfloor>p + 1 / 2\<rfloor>"
    by (simp add: mathRound_def p_def)
  moreover have "claimed_percent l t = \<lfloor>c + 1 / 2\<rfloor>"
    by (simp add: claimed_percent_def round_def c_def)
  ultimately show ?thesis using 1 2 by linarith
qed

lemma progress_of_tick:
  assumes "ev_loaded e = Some l" and "ev_total e = Some t" and "0 < t"
  shows "progress (onUploadProgress f e s) = mathRound (times_100 (div_nat l t))"
    and "uploadedBytes (onUploadProgress f e s) = l"
    and "totalBytes (onUploadProgress f e s) = t"
  using assms
  by (simp_all add: onUploadProgress_def Let_def split: option.splits)


lemma dval_mathMax: "dval (mathMax x y) = max (dval x) (dval y)"
  by (simp add: mathMax_def max_def)

text \<open>
  The divisor of the rate: the larger of the elapsed seconds and a thousandth, up to one
  part in 2 to the 53.
\<close>

lemma divisor_near:
  fixes now st :: nat
  defines "den \<equiv> dval (mathMax (div_nat (nat (int now - int st)) 1000) (div_nat 1 1000))"
    and "E \<equiv> max ((real now - real st) / 1000) (1 / 1000)"
  shows "E * (1 - 1 / 2 ^ 53) \<le> den" and "den \<le> E * (1 + 1 / 2 ^ 53)" and "0 < E"
proof -
  define n where "n = nat (int now - int st)"
  define A where "A = real n / 1000"
  have A0: "0 \<le> A" by (simp add: A_def)
  have E: "E = max A (1 / 1000)"
  proof (cases "st \<le> now")
    case True
    then have "real n = real now - real st" by (simp add: n_def of_nat_diff)
    then show ?thesis by (simp add: E_def A_def)
  next
    case False
    then have "n = 0" and "(real now - real st) / 1000 \<le> 0" by (simp_all add: n_def)
    then show ?thesis by (simp add: E_def A_def)
  qed
  have el: "\<bar>dval (div_nat n 1000) - A\<bar> \<le> A / 2 ^ 53"
  proof (cases "n = 0")
    case True
    then show ?thesis by (simp add: A_def div_nat_zero)
  next
    case False
    then have "0 < n" by simp
    from div_nat_error [OF this, of 1000] show ?thesis by (simp add: A_def)
  qed
  have eps: "\<bar>dval (div_nat 1 1000) - 1 / 1000\<bar> \<le> 1 / 1000 / 2 ^ 53"
    using div_nat_error [of 1 1000] by simp
  have den: "den = max (dval (div_nat n 1000)) (dval (div_nat 1 1000))"
    by (simp only: den_def dval_mathMax n_def)
  have thousandth: "(0::real) \<le> 1 / 1000" by simp
  show "E * (1 - 1 / 2 ^ 53) \<le> den"
    unfolding E den using el eps A0 thousandth by (rule max_near)
  show "den \<le> E * (1 + 1 / 2 ^ 53)"
    unfolding E den using el eps A0 thousandth by (rule max_near)
  show "0 < E" by (simp add: E_def)
qed

lemma error_factors:
  "(1 - 1 / 2 ^ 50 :: real) \<le> (1 - 1 / 2 ^ 53) / ((1 + 1 / 2 ^ 53) / (1 - 1 / 2 ^ 53))"
  "(1 + 1 / 2 ^ 53) / ((1 - 1 / 2 ^ 53) / (1 + 1 / 2 ^ 53)) \<le> (1 + 1 / 2 ^ 50 :: real)"
  by simp_all

text \<open>
  The estimate of the callback for a start time, a clock reading, and byte counts with
  some bytes sent and some remaining.
\<close>

lemma estimate_near:
  fixes now st l t :: nat
  assumes "0 < l" and "l < t"
  defines "den \<equiv> mathMax (div_nat (nat (int now - int st)) 1000) (div_nat 1 1000)"
    and "E \<equiv> max ((real now - real st) / 1000) (1 / 1000)"
  shows "0 < dval (nat_div_double l den)"
    and "0 < dval (nat_div_double (t - l) (nat_div_double l den))"
    and "\<bar>dval (nat_div_double (t - l) (nat_div_double l den)) - (real t - real l) / (real l / E)\<bar>
           \<le> (real t - real l) / (real l / E) / 2 ^ 50"
proof -
  define rate where "rate = dval (nat_div_double l den)"
  define eta where "eta = dval (nat_div_double (t - l) (nat_div_double l den))"
  define r where "r = real t - real l"
  have r: "0 < r" "r = real (t - l)" using assms(2) by (simp_all add: r_def of_nat_diff)
  have l: "0 < real l" using assms(1) by simp
  note d = divisor_near [of now st, folded den_def E_def]
  have lo: "(0::real) < 1 - 1 / 2 ^ 53" by simp
  have dpos: "0 < dval den"
  proof -
    have "0 < E * (1 - 1 / 2 ^ 53)" using d(3) lo by (rule mult_pos_pos)
    with d(1) show ?thesis by simp
  qed
  have re: "\<bar>rate - real l / dval den\<bar> \<le> real l / dval den / 2 ^ 53"
    unfolding rate_def using assms(1) dpos by (rule nat_div_double_error)
  have "0 < real l / dval den" using l dpos by simp
  with re show rpos: "0 < dval (nat_div_double l den)"
    unfolding rate_def by (rule relative_positive)
  note rb = quotient_bounds [OF l d(3) lo d(1) d(2) re]
  have "0 < t - l" using assms(2) by simp
  from nat_div_double_error [OF this rpos]
  have ee: "\<bar>eta - r / rate\<bar> \<le> r / rate / 2 ^ 53"
    by (simp only: eta_def rate_def r(2))
  have "0 < r / rate" using r(1) rpos by (simp add: rate_def)
  with ee show "0 < dval (nat_div_double (t - l) (nat_div_double l den))"
    unfolding eta_def by (rule relative_positive)
  have lE: "0 < real l / E" using l d(3) by simp
  have lo2: "(0::real) < (1 - 1 / 2 ^ 53) / (1 + 1 / 2 ^ 53)" by simp
  note eb = quotient_bounds [OF r(1) lE lo2 rb ee]
  define y where "y = r / (real l / E)"
  have y: "0 < y" unfolding y_def using r(1) lE by (rule divide_pos_pos)
  have "y * (1 - 1 / 2 ^ 50) \<le> y * ((1 - 1 / 2 ^ 53) / ((1 + 1 / 2 ^ 53) / (1 - 1 / 2 ^ 53)))"
    using y error_factors(1) by (intro mult_left_mono) simp_all
  with eb(1) have low: "y * (1 - 1 / 2 ^ 50) \<le> eta" by (simp only: y_def)
  have "y * ((1 + 1 / 2 ^ 53) / ((1 - 1 / 2 ^ 53) / (1 + 1 / 2 ^ 53))) \<le> y * (1 + 1 / 2 ^ 50)"
    using y error_factors(2) by (intro mult_left_mono) simp_all
  with eb(2) have high: "eta \<le> y * (1 + 1 / 2 ^ 50)" by (simp only: y_def)
  define w where "w = y / 2 ^ 50"
  have e: "y * (1 - 1 / 2 ^ 50) = y - w" "y * (1 + 1 / 2 ^ 50) = y + w"
    by (simp_all add: w_def algebra_simps)
  have "y - w \<le> eta" using low by (simp only: e)
  moreover have "eta \<le> y + w" using high by (simp only: e)
  ultimately have "\<bar>eta - y\<bar> \<le> w" by linarith
  then show "\<bar>dval (nat_div_double (t - l) (nat_div_double l den)) - (real t - real l) / (real l / E)\<bar>
           \<le> (real t - real l) / (real l / E) / 2 ^ 50"
    by (simp only: eta_def y_def w_def r_def)
qed


lemma eta_of_tick:
  assumes "ev_loaded e = Some l" and "ev_total e = Some t" and "0 < t" and "l \<le> t"
    and "startTimeRef s = Some st" and "st \<noteq> 0"
  shows "etaSeconds (onUploadProgress f e s) =
      (if 0 < l \<and> l < t
       then Some (nat_div_double (t - l) (nat_div_double l
              (mathMax (div_nat (nat (int (ev_now e) - int st)) 1000) (div_nat 1 1000))))
       else None)"
proof -
  define den where "den = mathMax (div_nat (nat (int (ev_now e) - int st)) 1000) (div_nat 1 1000)"
  define rate where "rate = nat_div_double l den"
  define eta where "eta = nat_div_double (t - l) rate"
  have eq: "etaSeconds (onUploadProgress f e s) =
      (if dval rate > 0 then (if dval eta \<noteq> 0 then Some eta else None) else None)"
    using assms by (simp add: onUploadProgress_def Let_def den_def rate_def eta_def)
  show ?thesis
  proof (cases "0 < l \<and> l < t")
    case True
    then have l: "0 < l" and t: "l < t" by simp_all
    from estimate_near(1,2) [OF l t, of "ev_now e" st]
    have "0 < dval rate" and "0 < dval eta" by (simp_all only: rate_def eta_def den_def)
    with eq True show ?thesis by (simp add: eta_def rate_def den_def)
  next
    case False
    with assms(4) have "l = 0 \<or> l = t" by auto
    then have "dval rate = 0 \<or> dval eta = 0"
      by (auto simp add: rate_def eta_def nat_div_double_zero)
    with eq False show ?thesis by auto
  qed
qed

lemma tick_from_scratch:
  assumes "startTimeRef s2 = startTimeRef s"
  shows "progress (onUploadProgress f e s2) = progress (onUploadProgress f e s)"
    and "uploadedBytes (onUploadProgress f e s2) = uploadedBytes (onUploadProgress f e s)"
    and "totalBytes (onUploadProgress f e s2) = totalBytes (onUploadProgress f e s)"
  using assms by (simp_all add: onUploadProgress_def Let_def split: option.splits)

lemma claimed_eta_value:
  assumes "0 < l"
  shows "claimed_eta l t el = Some ((real t - real l) / (real l / max el (1 / 1000)))"
proof -
  have "0 < max el (1 / 1000)" by (simp add: max_def)
  with assms have "0 < real l / max el (1 / 1000)" by simp
  then show ?thesis by (simp only: claimed_eta_def Let_def if_True)
qed

text \<open>
  Claim C7, as the code has it. On a progress event that carries the bytes sent and a
  total that is not zero, with no more sent than the total, during an attempt (the start
  time is set): the percentage is \<open>Math.round\<close> of the double-precision product of the
  double-precision quotient of sent and total by 100; it lies between 0 and 100 and is
  within one of the rounded exact value of 100 times sent over total (it is 14 and not 15
  at 29 of 200). The bytes sent and the total are recorded. An estimate is stored exactly
  when some bytes have been sent and some remain; it is then the double-precision value of
  what remains over the rate, the rate being the bytes sent over the larger of the elapsed
  seconds and one millisecond, and it is within one part in 2 to the 50 of the exact
  value of that expression. No estimate is stored when nothing has been sent and when
  everything has been sent. All are recomputed from the event and the start time alone:
  from any other state with the same start time the event gives the same percentage and
  the same estimate.
\<close>

theorem progress_is_recomputed:
  assumes "ev_loaded e = Some l" and "ev_total e = Some t" and "0 < t" and "l \<le> t"
    and "startTimeRef s = Some st" and "st \<noteq> 0"
  shows "progress (onUploadProgress f e s) = mathRound (times_100 (div_nat l t))
    \<and> 0 \<le> progress (onUploadProgress f e s) \<and> progress (onUploadProgress f e s) \<le> 100
    \<and> \<bar>progress (onUploadProgress f e s) - claimed_percent l t\<bar> \<le> 1
    \<and> uploadedBytes (onUploadProgress f e s) = l \<and> totalBytes (onUploadProgress f e s) = t
    \<and> etaSeconds (onUploadProgress f e s) =
         (if 0 < l \<and> l < t
          then Some (nat_div_double (t - l) (nat_div_double l
                 (mathMax (div_nat (nat (int (ev_now e) - int st)) 1000) (div_nat 1 1000))))
          else None)
    \<and> (\<forall>x. etaSeconds (onUploadProgress f e s) = Some x \<longrightarrow>
          (\<exists>y. claimed_eta l t ((real (ev_now e) - real st) / 1000) = Some y
             \<and> 0 < y \<and> \<bar>dval x - y\<bar> \<le> y / 2 ^ 50))
    \<and> (\<forall>s2. startTimeRef s2 = startTimeRef s \<longrightarrow>
          progress (onUploadProgress f e s2) = progress (onUploadProgress f e s)
          \<and> etaSeconds (onUploadProgress f e s2) = etaSeconds (onUploadProgress f e s))"
proof -
  have 1: "progress (onUploadProgress f e s) = mathRound (times_100 (div_nat l t))"
    using assms(1-3) by (rule progress_of_tick)
  note 2 = percent_range [OF assms(3) assms(4)]
  note 5 = percent_close [OF assms(3) assms(4)]
  note 6 = eta_of_tick [OF assms]
  have 3: "etaSeconds (onUploadProgress f e s2) = etaSeconds (onUploadProgress f e s)"
    if "startTimeRef s2 = startTimeRef s" for s2
  proof -
    from that assms(5) have "startTimeRef s2 = Some st" by simp
    from eta_of_tick [OF assms(1-4) this assms(6)] 6
    show ?thesis by (simp only:)
  qed
  have 4: "progress (onUploadProgress f e s2) = progress (onUploadProgress f e s)"
    if "startTimeRef s2 = startTimeRef s" for s2
    using that by (rule tick_from_scratch(1))
  have 7: "\<exists>y. claimed_eta l t ((real (ev_now e) - real st) / 1000) = Some y
             \<and> 0 < y \<and> \<bar>dval x - y\<bar> \<le> y / 2 ^ 50"
    if x: "etaSeconds (onUploadProgress f e s) = Some x" for x
  proof -
    from x 6 have lt: "0 < l \<and> l < t" by (cases "0 < l \<and> l < t") simp_all
    then have l: "0 < l" and t: "l < t" by simp_all
    from x 6 lt have xv: "x = nat_div_double (t - l) (nat_div_double l
        (mathMax (div_nat (nat (int (ev_now e) - int st)) 1000) (div_nat 1 1000)))"
      by simp
    define y where "y = (real t - real l) / (real l / max ((real (ev_now e) - real st) / 1000) (1 / 1000))"
    have c: "claimed_eta l t ((real (ev_now e) - real st) / 1000) = Some y"
      unfolding y_def using l by (rule claimed_eta_value)
    have near: "\<bar>dval x - y\<bar> \<le> y / 2 ^ 50"
      unfolding xv y_def using l t by (rule estimate_near(3))
    have "0 < max ((real (ev_now e) - real st) / 1000) (1 / 1000)" by (simp add: max_def)
    moreover have "0 < real l" using l by simp
    ultimately have "0 < real l / max ((real (ev_now e) - real st) / 1000) (1 / 1000)"
      by (rule divide_pos_pos [rotated])
    moreover have "0 < real t - real l" using t by simp
    ultimately have "0 < y" unfolding y_def by (rule divide_pos_pos [rotated])
    with c near show ?thesis by blast
  qed
  show ?thesis
  proof (intro conjI allI impI)
    show "progress (onUploadProgress f e s) = mathRound (times_100 (div_nat l t))" by (rule 1)
    show "0 \<le> progress (onUploadProgress f e s)" using 2(1) by (simp only: 1)
    show "progress (onUploadProgress f e s) \<le> 100" using 2(2) by (simp only: 1)
    show "\<bar>progress (onUploadProgress f e s) - claimed_percent l t\<bar> \<le> 1" using 5 by (simp only: 1)
    show "uploadedBytes (onUploadProgress f e s) = l" using assms(1-3) by (rule progress_of_tick)
    show "totalBytes (onUploadProgress f e s) = t" using assms(1-3) by (rule progress_of_tick)
    show "etaSeconds (onUploadProgress f e s) =
         (if 0 < l \<and> l < t
          then Some (nat_div_double (t - l) (nat_div_double l
                 (mathMax (div_nat (nat (int (ev_now e) - int st)) 1000) (div_nat 1 1000))))
          else None)" by (rule 6)
  next
    fix x assume "etaSeconds (onUploadProgress f e s) = Some x"
    then show "\<exists>y. claimed_eta l t ((real (ev_now e) - real st) / 1000) = Some y
             \<and> 0 < y \<and> \<bar>dval x - y\<bar> \<le> y / 2 ^ 50" by (rule 7)
  next
    fix s2 :: widget assume "startTimeRef s2 = startTimeRef s"
    then show "progress (onUploadProgress f e s2) = progress (onUploadProgress f e s)"
      and "etaSeconds (onUploadProgress f e s2) = etaSeconds (onUploadProgress f e s)"
      by (rule 4, rule 3)
  qed
qed


lemma started_widget: "startTimeRef (initial_widget\<lparr> startTimeRef := Some 1000 \<rparr>) = Some 1000"
  by simp

lemma half_tick_fields:
  "ev_loaded half_tick = Some 50" "ev_total half_tick = Some 100" "ev_now half_tick = 2000"
  by (simp_all add: half_tick_def)

lemma odd_tick_fields:
  "ev_loaded odd_tick = Some 29696" "ev_total odd_tick = Some 204800" "ev_now odd_tick = 2000"
  by (simp_all add: odd_tick_def)

lemma half_quotient: "times_100 (div_nat 50 100) = Double 7036874417766400 (- 47)"
  by code_simp

lemma odd_quotient: "times_100 (div_nat 29696 204800) = Double 8162774324609023 (- 49)"
  by code_simp

lemma half_percent: "mathRound (times_100 (div_nat 50 100)) = 50"
  by (simp add: half_quotient mathRound_def)

lemma odd_percent: "mathRound (times_100 (div_nat 29696 204800)) = 14"
  unfolding odd_quotient mathRound_def by (simp add: floor_eq_iff)

lemma odd_claimed: "claimed_percent 29696 204800 = 15"
  by (simp add: claimed_percent_def round_def floor_eq_iff)

lemma half_claimed: "claimed_percent 50 100 = 50"
  by (simp add: claimed_percent_def round_def floor_eq_iff)

lemma one_second: "div_nat (nat (int 2000 - int 1000)) 1000 = Double 4503599627370496 (- 52)"
  by code_simp

lemma one_millisecond: "div_nat 1 1000 = Double 4611686018427388 (- 62)"
  by code_simp

lemma half_divisor:
  "mathMax (div_nat (nat (int 2000 - int 1000)) 1000) (div_nat 1 1000) = Double 4503599627370496 (- 52)"
  by (simp only: one_second one_millisecond) (simp add: mathMax_def)

lemma half_estimate:
  "nat_div_double (100 - 50) (nat_div_double 50 (Double 4503599627370496 (- 52)))
     = Double 4503599627370496 (- 52)"
  by code_simp

lemma half_claimed_eta: "claimed_eta 50 100 ((real 2000 - real 1000) / 1000) = Some 1"
  by (simp add: claimed_eta_def Let_def)


theorem progress_is_recomputed_witness:
  "ev_loaded half_tick = Some 50 \<and> ev_total half_tick = Some 100 \<and> (0::nat) < 100 \<and> (50::nat) \<le> 100
   \<and> startTimeRef (initial_widget\<lparr> startTimeRef := Some 1000 \<rparr>) = Some 1000 \<and> (1000::nat) \<noteq> 0
   \<and> progress (onUploadProgress sample_file half_tick (initial_widget\<lparr> startTimeRef := Some 1000 \<rparr>)) = 50
   \<and> etaSeconds (onUploadProgress sample_file half_tick (initial_widget\<lparr> startTimeRef := Some 1000 \<rparr>))
       = Some (Double 4503599627370496 (- 52))
   \<and> dval (Double 4503599627370496 (- 52)) = 1
   \<and> claimed_eta 50 100 ((real 2000 - real 1000) / 1000) = Some 1
   \<and> ev_loaded odd_tick = Some 29696 \<and> ev_total odd_tick = Some 204800 \<and> (0::nat) < 204800
   \<and> (29696::nat) \<le> 204800
   \<and> progress (onUploadProgress sample_file odd_tick (initial_widget\<lparr> startTimeRef := Some 1000 \<rparr>)) = 14
   \<and> claimed_percent 29696 204800 = 15"
proof -
  have 3: "(0::nat) < 100" and 4: "(50::nat) \<le> 100" and 6: "(1000::nat) \<noteq> 0" by simp_all
  note w = progress_is_recomputed [OF half_tick_fields(1,2) 3 4 started_widget 6, of sample_file]
  from w have "progress (onUploadProgress sample_file half_tick (initial_widget\<lparr> startTimeRef := Some 1000 \<rparr>))
      = mathRound (times_100 (div_nat 50 100))" by (rule conjunct1)
  then have p: "progress (onUploadProgress sample_file half_tick (initial_widget\<lparr> startTimeRef := Some 1000 \<rparr>)) = 50"
    by (simp only: half_percent)
  from w have "etaSeconds (onUploadProgress sample_file half_tick (initial_widget\<lparr> startTimeRef := Some 1000 \<rparr>))
      = (if (0::nat) < 50 \<and> (50::nat) < 100
         then Some (nat_div_double (100 - 50) (nat_div_double 50
                (mathMax (div_nat (nat (int (ev_now half_tick) - int 1000)) 1000) (div_nat 1 1000))))
         else None)"
    by blast
  then have e: "etaSeconds (onUploadProgress sample_file half_tick (initial_widget\<lparr> startTimeRef := Some 1000 \<rparr>))
      = Some (Double 4503599627370496 (- 52))"
    by (simp only: half_tick_fields half_divisor half_estimate) simp
  have d: "dval (Double 4503599627370496 (- 52)) = 1" by simp
  have 7: "(0::nat) < 204800" and 8: "(29696::nat) \<le> 204800" by simp_all
  note w2 = progress_is_recomputed [OF odd_tick_fields(1,2) 7 8 started_widget 6, of sample_file]
  from w2 have "progress (onUploadProgress sample_file odd_tick (initial_widget\<lparr> startTimeRef := Some 1000 \<rparr>))
      = mathRound (times_100 (div_nat 29696 204800))" by (rule conjunct1)
  then have q: "progress (onUploadProgress sample_file odd_tick (initial_widget\<lparr> startTimeRef := Some 1000 \<rparr>)) = 14"
    by (simp only: odd_percent)
  from half_tick_fields(1,2) 3 4 started_widget 6 p e d half_claimed_eta
    odd_tick_fields(1,2) 7 8 q odd_claimed
  show ?thesis by blast
qed

lemma eta_at_completion:
  "etaSeconds (onUploadProgress sample_file last_tick (initial_widget\<lparr> startTimeRef := Some 1000 \<rparr>)) = None"
  by (simp add: onUploadProgress_def last_tick_def Let_def nat_div_double_zero)

lemma claimed_eta_at_completion: "claimed_eta 100 100 ((real 2000 - real 1000) / 1000) = Some 0"
  by (simp add: claimed_eta_def Let_def)

text \<open>
  Claim C7 as it is written fails on the event that reports the last byte: one second into
  the upload the rate is positive, the claimed estimate is zero seconds, and the callback
  stores no estimate, since a zero is falsy in its last line.
\<close>

theorem eta_at_completion_counterexample:
  "map_option dval
     (etaSeconds (onUploadProgress sample_file last_tick (initial_widget\<lparr> startTimeRef := Some 1000 \<rparr>)))
     \<noteq> claimed_eta 100 100 ((real 2000 - real 1000) / 1000)"
  by (simp only: eta_at_completion claimed_eta_at_completion) simp


section \<open>Properties of the retry loop\<close>

lemma uploadOnce_frame:
  "\<exists>s1. uploadOnce parse f a s =
      (case ending a of
         Responds r \<Rightarrow>
           (case interpretResponse parse r of
              Inl e \<Rightarrow> (Inl e, s1\<lparr> inflight := None \<rparr>)
            | Inr normalized \<Rightarrow> (Inr (), s1\<lparr> inflight := None, result := Some normalized \<rparr>))
       | Rejects e \<Rightarrow> (Inl e, s1\<lparr> inflight := None \<rparr>)
       | UserCancels m \<Rightarrow> (Inl (Canceled m), handleCancel s1)
       | UserResets m \<Rightarrow> (Inl (Canceled m), resetAll s1))
    \<and> requests s1 = Suc (requests s) \<and> waited s1 = waited s \<and> toasts s1 = toasts s
    \<and> status s1 = status s \<and> errors s1 = errors s \<and> file_st s1 = file_st s"
proof -
  obtain u t p e where fr: "fold (onUploadProgress f) (ticks a) (beginAttempt f a s) =
     (beginAttempt f a s)\<lparr> uploadedBytes := u, totalBytes := t, progress := p, etaSeconds := e \<rparr>"
    using ticks_frame by blast
  have kept: "requests (fold (onUploadProgress f) (ticks a) (beginAttempt f a s)) = Suc (requests s)"
    "waited (fold (onUploadProgress f) (ticks a) (beginAttempt f a s)) = waited s"
    "toasts (fold (onUploadProgress f) (ticks a) (beginAttempt f a s)) = toasts s"
    "status (fold (onUploadProgress f) (ticks a) (beginAttempt f a s)) = status s"
    "errors (fold (onUploadProgress f) (ticks a) (beginAttempt f a s)) = errors s"
    "file_st (fold (onUploadProgress f) (ticks a) (beginAttempt f a s)) = file_st s"
    unfolding fr by (simp_all add: beginAttempt_def)
  show ?thesis
    by (rule exI [of _ "fold (onUploadProgress f) (ticks a) (beginAttempt f a s)"])
       (simp add: uploadOnce_def Let_def kept)
qed

lemma handleCancel_kept:
  "requests (handleCancel s) = requests s" "waited (handleCancel s) = waited s"
  "status (handleCancel s) = Ready" "file_st (handleCancel s) = file_st s"
  "toasts (handleCancel s) = toasts s @ [Toast Neutral (lit ''Upload canceled'') (lit ''You canceled the current upload.'')]"
  by (simp_all add: handleCancel_def abortCurrent_def abort_def split: option.splits)

lemma resetAll_kept:
  "requests (resetAll s) = requests s" "waited (resetAll s) = waited s" "toasts (resetAll s) = toasts s"
  by (simp_all add: resetAll_def revokePreview_def abortCurrent_def abort_def split: option.splits)

lemma uploadOnce_requests: "requests (snd (uploadOnce parse f a s)) = Suc (requests s)"
proof -
  obtain s1 where "uploadOnce parse f a s =
      (case ending a of
         Responds r \<Rightarrow>
           (case interpretResponse parse r of
              Inl e \<Rightarrow> (Inl e, s1\<lparr> inflight := None \<rparr>)
            | Inr normalized \<Rightarrow> (Inr (), s1\<lparr> inflight := None, result := Some normalized \<rparr>))
       | Rejects e \<Rightarrow> (Inl e, s1\<lparr> inflight := None \<rparr>)
       | UserCancels m \<Rightarrow> (Inl (Canceled m), handleCancel s1)
       | UserResets m \<Rightarrow> (Inl (Canceled m), resetAll s1))" and "requests s1 = Suc (requests s)"
    using uploadOnce_frame by blast
  then show ?thesis
    by (simp add: handleCancel_kept resetAll_kept split: attempt_end.splits sum.splits)
qed

lemma uploadOnce_waited: "waited (snd (uploadOnce parse f a s)) = waited s"
proof -
  obtain s1 where "uploadOnce parse f a s =
      (case ending a of
         Responds r \<Rightarrow>
           (case interpretResponse parse r of
              Inl e \<Rightarrow> (Inl e, s1\<lparr> inflight := None \<rparr>)
            | Inr normalized \<Rightarrow> (Inr (), s1\<lparr> inflight := None, result := Some normalized \<rparr>))
       | Rejects e \<Rightarrow> (Inl e, s1\<lparr> inflight := None \<rparr>)
       | UserCancels m \<Rightarrow> (Inl (Canceled m), handleCancel s1)
       | UserResets m \<Rightarrow> (Inl (Canceled m), resetAll s1))" and "waited s1 = waited s"
    using uploadOnce_frame by blast
  then show ?thesis
    by (simp add: handleCancel_kept resetAll_kept split: attempt_end.splits sum.splits)
qed

text \<open>One turn of the loop, by the outcome of the attempt.\<close>

lemma loop_exhausted: "\<not> a < m \<Longrightarrow> uploadWithRetry_loop env f m a le s = (Inl le, s)"
  by (subst uploadWithRetry_loop.simps) simp

lemma loop_success:
  assumes "a < m" and "attempt_outcome (jsonParse env) (transport env (Suc a)) = Inr n"
  shows "uploadWithRetry_loop env f m a le s =
     (Inr (), snd (uploadOnce (jsonParse env) f (transport env (Suc a)) s))"
proof -
  have "fst (uploadOnce (jsonParse env) f (transport env (Suc a)) s) = Inr ()"
    using assms(2) by (simp add: uploadOnce_fst)
  then show ?thesis
    using assms(1)
    by (subst uploadWithRetry_loop.simps) (simp add: split_beta split: sum.splits)
qed

lemma loop_final_failure:
  assumes "a < m" and "attempt_outcome (jsonParse env) (transport env (Suc a)) = Inl e"
    and "is_cancel e \<or> client_status e"
  shows "uploadWithRetry_loop env f m a le s =
     (Inl (Some e), snd (uploadOnce (jsonParse env) f (transport env (Suc a)) s))"
proof -
  have "fst (uploadOnce (jsonParse env) f (transport env (Suc a)) s) = Inl e"
    using assms(2) by (simp add: uploadOnce_fst)
  then show ?thesis
    using assms(1,3)
    by (subst uploadWithRetry_loop.simps) (auto simp: split_beta split: sum.splits)
qed

lemma loop_retry:
  assumes "a < m" and "attempt_outcome (jsonParse env) (transport env (Suc a)) = Inl e"
    and "\<not> is_cancel e" and "\<not> client_status e"
  shows "uploadWithRetry_loop env f m a le s =
     uploadWithRetry_loop env f m (Suc a) (Some e)
       ((snd (uploadOnce (jsonParse env) f (transport env (Suc a)) s))
          \<lparr> waited := waited s @ [backoffDelay (Suc a) (random env (Suc a))] \<rparr>)"
proof -
  have "fst (uploadOnce (jsonParse env) f (transport env (Suc a)) s) = Inl e"
    using assms(2) by (simp add: uploadOnce_fst)
  then show ?thesis
    using assms(1,3,4)
    by (subst uploadWithRetry_loop.simps) (auto simp: split_beta uploadOnce_waited split: sum.splits)
qed


lemma loop_not_retried:
  assumes "a < m" and "\<not> retried (attempt_outcome (jsonParse env) (transport env (Suc a)))"
  shows "uploadWithRetry_loop env f m a le s =
     (case attempt_outcome (jsonParse env) (transport env (Suc a)) of
        Inl e \<Rightarrow> Inl (Some e) | Inr n \<Rightarrow> Inr (),
      snd (uploadOnce (jsonParse env) f (transport env (Suc a)) s))"
proof (cases "attempt_outcome (jsonParse env) (transport env (Suc a))")
  case (Inl e)
  with assms(2) have "is_cancel e \<or> client_status e" by (simp add: retried_def)
  with assms(1) Inl show ?thesis by (simp add: loop_final_failure)
next
  case (Inr n)
  with assms(1) show ?thesis by (simp add: loop_success)
qed

lemma loop_retried:
  assumes "a < m" and "retried (attempt_outcome (jsonParse env) (transport env (Suc a)))"
  shows "\<exists>e. attempt_outcome (jsonParse env) (transport env (Suc a)) = Inl e
    \<and> uploadWithRetry_loop env f m a le s =
      uploadWithRetry_loop env f m (Suc a) (Some e)
       ((snd (uploadOnce (jsonParse env) f (transport env (Suc a)) s))
          \<lparr> waited := waited s @ [backoffDelay (Suc a) (random env (Suc a))] \<rparr>)"
proof (cases "attempt_outcome (jsonParse env) (transport env (Suc a))")
  case (Inl e)
  with assms(2) have "\<not> is_cancel e" "\<not> client_status e" by (simp_all add: retried_def)
  with assms(1) Inl show ?thesis by (simp add: loop_retry)
next
  case (Inr n)
  with assms(2) show ?thesis by (simp add: retried_def)
qed

lemma loop_requests:
  "requests (snd (uploadWithRetry_loop env f (a + n) a le s)) =
     requests s + attempts_from (\<lambda>k. retried (attempt_outcome (jsonParse env) (transport env k))) a n"
proof (induction n arbitrary: a le s)
  case 0
  show ?case by (simp add: loop_exhausted)
next
  case (Suc n)
  let ?retr = "\<lambda>k. retried (attempt_outcome (jsonParse env) (transport env k))"
  let ?s2 = "(snd (uploadOnce (jsonParse env) f (transport env (Suc a)) s))
            \<lparr> waited := waited s @ [backoffDelay (Suc a) (random env (Suc a))] \<rparr>"
  have lt: "a < a + Suc n" by simp
  have eq: "a + Suc n = Suc a + n" by simp
  show ?case
  proof (cases "?retr (Suc a)")
    case False
    then show ?thesis
      by (simp only: loop_not_retried [OF lt False]) (simp add: uploadOnce_requests)
  next
    case True
    from loop_retried [OF lt True, of f le s] obtain e where
      step: "uploadWithRetry_loop env f (a + Suc n) a le s =
        uploadWithRetry_loop env f (a + Suc n) (Suc a) (Some e) ?s2"
      by blast
    have "requests (snd (uploadWithRetry_loop env f (a + Suc n) a le s)) =
        requests (snd (uploadWithRetry_loop env f (Suc a + n) (Suc a) (Some e) ?s2))"
      by (subst step) (simp only: eq)
    also have "\<dots> = requests ?s2 + attempts_from ?retr (Suc a) n"
      by (rule Suc.IH)
    also have "\<dots> = requests s + attempts_from ?retr a (Suc n)"
      using True by (simp add: uploadOnce_requests)
    finally show ?thesis .
  qed
qed

lemma loop_waited:
  "waited (snd (uploadWithRetry_loop env f (a + n) a le s)) =
     waited s @ map (\<lambda>k. backoffDelay k (random env k))
       (filter (\<lambda>k. retried (attempt_outcome (jsonParse env) (transport env k)))
          [Suc a ..< Suc (a + attempts_from (\<lambda>k. retried (attempt_outcome (jsonParse env) (transport env k))) a n)])"
proof (induction n arbitrary: a le s)
  case 0
  show ?case by (simp add: loop_exhausted)
next
  case (Suc n)
  let ?retr = "\<lambda>k. retried (attempt_outcome (jsonParse env) (transport env k))"
  let ?delay = "\<lambda>k. backoffDelay k (random env k)"
  let ?s2 = "(snd (uploadOnce (jsonParse env) f (transport env (Suc a)) s))
            \<lparr> waited := waited s @ [backoffDelay (Suc a) (random env (Suc a))] \<rparr>"
  have lt: "a < a + Suc n" by simp
  have eq: "a + Suc n = Suc a + n" by simp
  show ?case
  proof (cases "?retr (Suc a)")
    case False
    then show ?thesis
      by (simp only: loop_not_retried [OF lt False]) (simp add: uploadOnce_waited)
  next
    case True
    from loop_retried [OF lt True, of f le s] obtain e where
      step: "uploadWithRetry_loop env f (a + Suc n) a le s =
        uploadWithRetry_loop env f (a + Suc n) (Suc a) (Some e) ?s2"
      by blast
    have up: "[Suc a ..< Suc (Suc a + attempts_from ?retr (Suc a) n)] =
        Suc a # [Suc (Suc a) ..< Suc (Suc a + attempts_from ?retr (Suc a) n)]"
      by (simp add: upt_conv_Cons)
    have "waited (snd (uploadWithRetry_loop env f (a + Suc n) a le s)) =
        waited (snd (uploadWithRetry_loop env f (Suc a + n) (Suc a) (Some e) ?s2))"
      by (subst step) (simp only: eq)
    also have "\<dots> = waited ?s2 @ map ?delay
        (filter ?retr [Suc (Suc a) ..< Suc (Suc a + attempts_from ?retr (Suc a) n)])"
      by (rule Suc.IH)
    also have "\<dots> = waited s @ map ?delay
        (filter ?retr (Suc a # [Suc (Suc a) ..< Suc (Suc a + attempts_from ?retr (Suc a) n)]))"
      using True by simp
    also have "\<dots> = waited s @ map ?delay
        (filter ?retr [Suc a ..< Suc (a + attempts_from ?retr a (Suc n))])"
      using True by (simp only: up [symmetric]) simp
    finally show ?thesis .
  qed
qed

lemma loop_result:
  "fst (uploadWithRetry_loop env f (a + Suc n) a le s) =
     (case attempt_outcome (jsonParse env) (transport env
             (a + attempts_from (\<lambda>k. retried (attempt_outcome (jsonParse env) (transport env k))) a (Suc n))) of
        Inl e \<Rightarrow> Inl (Some e) | Inr r \<Rightarrow> Inr ())"
proof (induction n arbitrary: a le s)
  case 0
  let ?s2 = "(snd (uploadOnce (jsonParse env) f (transport env (Suc a)) s))
            \<lparr> waited := waited s @ [backoffDelay (Suc a) (random env (Suc a))] \<rparr>"
  have lt: "a < a + Suc 0" by simp
  show ?case
  proof (cases "retried (attempt_outcome (jsonParse env) (transport env (Suc a)))")
    case False
    then show ?thesis
      by (simp only: loop_not_retried [OF lt False]) simp
  next
    case True
    from loop_retried [OF lt True, of f le s] obtain e where
      out: "attempt_outcome (jsonParse env) (transport env (Suc a)) = Inl e" and
      step: "uploadWithRetry_loop env f (a + Suc 0) a le s =
        uploadWithRetry_loop env f (a + Suc 0) (Suc a) (Some e) ?s2"
      by blast
    have "uploadWithRetry_loop env f (a + Suc 0) (Suc a) (Some e) ?s2 = (Inl (Some e), ?s2)"
      by (rule loop_exhausted) simp
    with step have "fst (uploadWithRetry_loop env f (a + Suc 0) a le s) = Inl (Some e)"
      by simp
    then show ?thesis
      using True out by simp
  qed
next
  case (Suc n)
  let ?retr = "\<lambda>k. retried (attempt_outcome (jsonParse env) (transport env k))"
  let ?s2 = "(snd (uploadOnce (jsonParse env) f (transport env (Suc a)) s))
            \<lparr> waited := waited s @ [backoffDelay (Suc a) (random env (Suc a))] \<rparr>"
  have lt: "a < a + Suc (Suc n)" by simp
  have eq: "a + Suc (Suc n) = Suc a + Suc n" by simp
  show ?case
  proof (cases "?retr (Suc a)")
    case False
    then show ?thesis
      by (simp only: loop_not_retried [OF lt False]) simp
  next
    case True
    from loop_retried [OF lt True, of f le s] obtain e where
      step: "uploadWithRetry_loop env f (a + Suc (Suc n)) a le s =
        uploadWithRetry_loop env f (a + Suc (Suc n)) (Suc a) (Some e) ?s2"
      by blast
    have at: "a + attempts_from ?retr a (Suc (Suc n)) = Suc a + attempts_from ?retr (Suc a) (Suc n)"
      using True by simp
    have "fst (uploadWithRetry_loop env f (a + Suc (Suc n)) a le s) =
        fst (uploadWithRetry_loop env f (Suc a + Suc n) (Suc a) (Some e) ?s2)"
      by (subst step) (simp only: eq)
    also have "\<dots> = (case attempt_outcome (jsonParse env) (transport env
             (Suc a + attempts_from ?retr (Suc a) (Suc n))) of
        Inl e \<Rightarrow> Inl (Some e) | Inr r \<Rightarrow> Inr ())"
      by (rule Suc.IH)
    finally show ?thesis
      by (simp only: at)
  qed
qed

lemma attempts_from_le: "attempts_from retr a n \<le> n"
  by (induction n arbitrary: a) simp_all

lemma attempts_from_pos: "0 < n \<Longrightarrow> 0 < attempts_from retr a n"
  by (cases n) simp_all

lemma attempts_from_before:
  "a < k \<Longrightarrow> k < a + attempts_from retr a n \<Longrightarrow> retr k"
proof (induction n arbitrary: a)
  case 0
  then show ?case by simp
next
  case (Suc n)
  show ?case
  proof (cases "retr (Suc a)")
    case False
    with Suc.prems show ?thesis by simp
  next
    case True
    show ?thesis
    proof (cases "k = Suc a")
      case True
      with \<open>retr (Suc a)\<close> show ?thesis by simp
    next
      case False
      with Suc.prems \<open>retr (Suc a)\<close> have "Suc a < k" "k < Suc a + attempts_from retr (Suc a) n"
        by simp_all
      then show ?thesis by (rule Suc.IH)
    qed
  qed
qed

lemma attempts_from_last:
  "attempts_from retr a n < n \<Longrightarrow> \<not> retr (a + attempts_from retr a n)"
proof (induction n arbitrary: a)
  case 0
  then show ?case by simp
next
  case (Suc n)
  show ?case
  proof (cases "retr (Suc a)")
    case False
    then show ?thesis by simp
  next
    case True
    with Suc.prems have "attempts_from retr (Suc a) n < n" by simp
    then have "\<not> retr (Suc a + attempts_from retr (Suc a) n)" by (rule Suc.IH)
    with True show ?thesis by simp
  qed
qed

lemma retried_cases:
  "retried (Inl (NetworkError m))" "retried (Inl (ResponseError m))"
  "retried (Inl (HttpError st rm m)) = (st = 0 \<or> 500 \<le> st)"
  "\<not> retried (Inl (Canceled m))" "\<not> retried (Inr r)"
  by (auto simp: retried_def client_status_def)

lemma retried_iff:
  "retried out = (\<exists>e. out = Inl e \<and> \<not> is_cancel e
      \<and> (\<forall>st. response_status e = Some st \<longrightarrow> st = 0 \<or> 500 \<le> st))"
proof (cases out)
  case (Inl e)
  then show ?thesis
    by (cases e) (auto simp: retried_def client_status_def)
next
  case (Inr r)
  then show ?thesis by (simp add: retried_def)
qed

lemma transient_is_retried: "transient_failure out \<Longrightarrow> retried out"
  by (auto simp: transient_failure_def retried_def client_status_def split: sum.splits upload_error.splits)

text \<open>The run of \<^verbatim>\<open>uploadWithRetry\<close> with three attempts allowed.\<close>

lemma retry_run:
  fixes env f s
  defines "n \<equiv> attempts_from (\<lambda>k. retried (attempt_outcome (jsonParse env) (transport env k))) 0 3"
  shows "requests (snd (uploadWithRetry env f 3 s)) - requests s = n"
    and "1 \<le> n" and "n \<le> 3"
    and "\<And>k. 1 \<le> k \<Longrightarrow> k < n \<Longrightarrow> retried (attempt_outcome (jsonParse env) (transport env k))"
    and "n < 3 \<Longrightarrow> \<not> retried (attempt_outcome (jsonParse env) (transport env n))"
    and "fst (uploadWithRetry env f 3 s) =
      (case attempt_outcome (jsonParse env) (transport env n) of
         Inl e \<Rightarrow> Inl (Some e) | Inr r \<Rightarrow> Inr ())"
    and "waited (snd (uploadWithRetry env f 3 s)) = waited s @ map (\<lambda>k. backoffDelay k (random env k))
       (filter (\<lambda>k. retried (attempt_outcome (jsonParse env) (transport env k))) [1 ..< Suc n])"
proof -
  let ?retr = "\<lambda>k. retried (attempt_outcome (jsonParse env) (transport env k))"
  have "requests (snd (uploadWithRetry_loop env f (0 + 3) 0 None s)) = requests s + n"
    unfolding n_def by (rule loop_requests)
  then show "requests (snd (uploadWithRetry env f 3 s)) - requests s = n"
    by (simp add: uploadWithRetry_def)
  show "1 \<le> n" using attempts_from_pos [of 3 ?retr 0] by (simp add: n_def)
  show "n \<le> 3" unfolding n_def by (rule attempts_from_le)
  show "?retr k" if "1 \<le> k" "k < n" for k
    using that attempts_from_before [of 0 k ?retr 3] by (simp add: n_def)
  show "\<not> ?retr n" if "n < 3"
    using that attempts_from_last [of ?retr 0 3] by (simp add: n_def)
  have "fst (uploadWithRetry_loop env f (0 + Suc 2) 0 None s) =
      (case attempt_outcome (jsonParse env) (transport env (0 + attempts_from ?retr 0 (Suc 2))) of
         Inl e \<Rightarrow> Inl (Some e) | Inr r \<Rightarrow> Inr ())"
    by (rule loop_result)
  moreover have "Suc 2 = 3" by simp
  ultimately show "fst (uploadWithRetry env f 3 s) =
      (case attempt_outcome (jsonParse env) (transport env n) of
         Inl e \<Rightarrow> Inl (Some e) | Inr r \<Rightarrow> Inr ())"
    by (simp add: uploadWithRetry_def n_def)
  have "waited (snd (uploadWithRetry_loop env f (0 + 3) 0 None s)) =
      waited s @ map (\<lambda>k. backoffDelay k (random env k))
        (filter ?retr [Suc 0 ..< Suc (0 + attempts_from ?retr 0 3)])"
    by (rule loop_waited)
  then show "waited (snd (uploadWithRetry env f 3 s)) = waited s @ map (\<lambda>k. backoffDelay k (random env k))
       (filter ?retr [1 ..< Suc n])"
    by (simp add: uploadWithRetry_def n_def)
qed


text \<open>
  Claim C2, as the code has it. \<^verbatim>\<open>uploadWithRetry\<close> calls \<^verbatim>\<open>uploadOnce\<close> at least once and at
  most three times. Every attempt before the last one was retried, and the last one was
  not, unless it was the third; the series ends with the outcome of the last attempt. An
  attempt is retried exactly when it threw something that is not a cancellation and
  carries no status between 1 and 499: a network error, a status of 500 or more, and also
  an error that \<^verbatim>\<open>uploadOnce\<close> raises itself on a response it cannot use. A transport that
  fails with 503 twice and then answers gives success after exactly three attempts; a 400
  on the first attempt is the failure of the series, after one attempt.
\<close>

theorem retry_policy:
  "let out = (\<lambda>k. attempt_outcome (jsonParse env) (transport env k));
       run = uploadWithRetry env f 3 s;
       n = requests (snd run) - requests s
   in 1 \<le> n \<and> n \<le> 3
      \<and> (\<forall>k. 1 \<le> k \<and> k < n \<longrightarrow> retried (out k))
      \<and> (n < 3 \<longrightarrow> \<not> retried (out n))
      \<and> fst run = (case out n of Inl e \<Rightarrow> Inl (Some e) | Inr r \<Rightarrow> Inr ())
      \<and> (\<forall>z. retried z = (\<exists>e. z = Inl e \<and> \<not> is_cancel e
              \<and> (\<forall>st. response_status e = Some st \<longrightarrow> st = 0 \<or> 500 \<le> st)))
      \<and> (\<forall>z. transient_failure z \<longrightarrow> retried z)
      \<and> (\<forall>rm m rm' m' r. out 1 = Inl (HttpError 503 rm m) \<and> out 2 = Inl (HttpError 503 rm' m')
              \<and> out 3 = Inr r \<longrightarrow> n = 3 \<and> fst run = Inr ())
      \<and> (\<forall>rm m. out 1 = Inl (HttpError 400 rm m) \<longrightarrow>
              n = 1 \<and> fst run = Inl (Some (HttpError 400 rm m)))"
proof -
  define out where "out = (\<lambda>k. attempt_outcome (jsonParse env) (transport env k))"
  define n where "n = requests (snd (uploadWithRetry env f 3 s)) - requests s"
  have n: "n = attempts_from (\<lambda>k. retried (out k)) 0 3"
    unfolding n_def out_def by (rule retry_run(1))
  have bounds: "1 \<le> n" "n \<le> 3"
    unfolding n out_def by (rule retry_run(2), rule retry_run(3))
  have before: "retried (out k)" if "1 \<le> k" "k < n" for k
    using that unfolding n out_def by (rule retry_run(4))
  have last: "\<not> retried (out n)" if "n < 3"
    using that unfolding n out_def by (rule retry_run(5))
  have res: "fst (uploadWithRetry env f 3 s) = (case out n of Inl e \<Rightarrow> Inl (Some e) | Inr r \<Rightarrow> Inr ())"
    unfolding n out_def by (rule retry_run(6))
  have flaky: "n = 3 \<and> fst (uploadWithRetry env f 3 s) = Inr ()"
    if "out 1 = Inl (HttpError 503 rm m) \<and> out 2 = Inl (HttpError 503 rm' m') \<and> out 3 = Inr r"
    for rm m rm' m' r
  proof -
    from that have r1: "retried (out 1)" and r2: "retried (out 2)"
      by (simp_all add: retried_cases)
    have "n \<noteq> 1" using last r1 by auto
    moreover have "n \<noteq> 2" using last r2 by auto
    ultimately have "n = 3" using bounds by arith
    with that res show ?thesis by simp
  qed
  have bad: "n = 1 \<and> fst (uploadWithRetry env f 3 s) = Inl (Some (HttpError 400 rm m))"
    if "out 1 = Inl (HttpError 400 rm m)" for rm m
  proof -
    from that have "\<not> retried (out 1)" by (simp add: retried_cases)
    with before [of 1] have "\<not> 1 < n" by auto
    with bounds have "n = 1" by arith
    with that res show ?thesis by simp
  qed
  have "1 \<le> n \<and> n \<le> 3
      \<and> (\<forall>k. 1 \<le> k \<and> k < n \<longrightarrow> retried (out k))
      \<and> (n < 3 \<longrightarrow> \<not> retried (out n))
      \<and> fst (uploadWithRetry env f 3 s) = (case out n of Inl e \<Rightarrow> Inl (Some e) | Inr r \<Rightarrow> Inr ())
      \<and> (\<forall>z. retried z = (\<exists>e. z = Inl e \<and> \<not> is_cancel e
              \<and> (\<forall>st. response_status e = Some st \<longrightarrow> st = 0 \<or> 500 \<le> st)))
      \<and> (\<forall>z. transient_failure z \<longrightarrow> retried z)
      \<and> (\<forall>rm m rm' m' r. out 1 = Inl (HttpError 503 rm m) \<and> out 2 = Inl (HttpError 503 rm' m')
              \<and> out 3 = Inr r \<longrightarrow> n = 3 \<and> fst (uploadWithRetry env f 3 s) = Inr ())
      \<and> (\<forall>rm m. out 1 = Inl (HttpError 400 rm m) \<longrightarrow>
              n = 1 \<and> fst (uploadWithRetry env f 3 s) = Inl (Some (HttpError 400 rm m)))"
    using bounds before last res flaky bad retried_iff transient_is_retried by blast
  then show ?thesis
    unfolding Let_def out_def n_def .
qed


lemma outcome_failing: "attempt_outcome parse (failing e) = Inl e"
  by (simp add: attempt_outcome_def failing_def)

lemma outcome_glioma:
  "attempt_outcome no_parse (responding glioma_response) = Inr (normalize (body glioma_response))"
proof -
  have "parseBody no_parse (contentType (headers glioma_response)) (body glioma_response)
      = Inr (body glioma_response)"
    by (simp add: parseBody_def glioma_response_def)
  then have "interpretResponse no_parse glioma_response = Inr (normalize (body glioma_response))"
    using glioma_is_json by (simp add: interpretResponse_def Let_def)
  then show ?thesis
    by (simp add: attempt_outcome_def responding_def)
qed

lemma outcome_html:
  "attempt_outcome no_parse (responding html_page) = Inl (ResponseError html_error_message)"
proof -
  have 3: "\<not> startsWith (trim (lit ''<!DOCTYPE html><html><body>Not Found</body></html>'')) (lit ''{'')"
    by code_simp
  have 4: "\<not> startsWith (trim (lit ''<!DOCTYPE html><html><body>Not Found</body></html>'')) (lit ''['')"
    by code_simp
  have 5: "looksLikeHTML (trim (lit ''<!DOCTYPE html><html><body>Not Found</body></html>''))"
    by code_simp
  have "parseBody no_parse (contentType (headers html_page)) (body html_page)
      = Inl (ResponseError html_error_message)"
    using 3 4 5 by (simp add: html_page_def parseBody_html)
  then have "interpretResponse no_parse html_page = Inl (ResponseError html_error_message)"
    by (simp add: interpretResponse_def Let_def)
  then show ?thesis
    by (simp add: attempt_outcome_def responding_def)
qed

lemma env_of_fields:
  "jsonParse (env_of tr) = no_parse" "transport (env_of tr) = tr" "random (env_of tr) k = 1 / 2"
  by (simp_all add: env_of_def)

lemma twice_503_outcomes:
  "attempt_outcome (jsonParse twice_503) (transport twice_503 1) = Inl (server_error 503)"
  "attempt_outcome (jsonParse twice_503) (transport twice_503 2) = Inl (server_error 503)"
  "attempt_outcome (jsonParse twice_503) (transport twice_503 3) = Inr (normalize (body glioma_response))"
  by (simp_all add: twice_503_def env_of_fields outcome_failing outcome_glioma)

lemma once_400_outcome:
  "attempt_outcome (jsonParse once_400) (transport once_400 1) = Inl (server_error 400)"
  by (simp add: once_400_def env_of_fields outcome_failing)

lemma html_then_ok_outcomes:
  "attempt_outcome (jsonParse html_then_ok) (transport html_then_ok 1) = Inl (ResponseError html_error_message)"
  "attempt_outcome (jsonParse html_then_ok) (transport html_then_ok 2) = Inr (normalize (body glioma_response))"
  by (simp_all add: html_then_ok_def env_of_fields outcome_html outcome_glioma)

theorem retry_policy_witness:
  "attempt_outcome (jsonParse twice_503) (transport twice_503 1) = Inl (HttpError 503 None ((lit ''Request failed with status code '') @ showNat 503))
   \<and> attempt_outcome (jsonParse twice_503) (transport twice_503 2) = Inl (HttpError 503 None ((lit ''Request failed with status code '') @ showNat 503))
   \<and> attempt_outcome (jsonParse twice_503) (transport twice_503 3) = Inr (normalize (body glioma_response))
   \<and> requests (snd (uploadWithRetry twice_503 sample_file 3 ready_widget)) - requests ready_widget = 3
   \<and> fst (uploadWithRetry twice_503 sample_file 3 ready_widget) = Inr ()
   \<and> attempt_outcome (jsonParse once_400) (transport once_400 1) = Inl (HttpError 400 None ((lit ''Request failed with status code '') @ showNat 400))
   \<and> requests (snd (uploadWithRetry once_400 sample_file 3 ready_widget)) - requests ready_widget = 1
   \<and> fst (uploadWithRetry once_400 sample_file 3 ready_widget)
        = Inl (Some (HttpError 400 None ((lit ''Request failed with status code '') @ showNat 400)))"
proof -
  note o = twice_503_outcomes [unfolded server_error_def] once_400_outcome [unfolded server_error_def]
  have "\<forall>rm m rm' m' r.
      attempt_outcome (jsonParse twice_503) (transport twice_503 1) = Inl (HttpError 503 rm m)
      \<and> attempt_outcome (jsonParse twice_503) (transport twice_503 2) = Inl (HttpError 503 rm' m')
      \<and> attempt_outcome (jsonParse twice_503) (transport twice_503 3) = Inr r \<longrightarrow>
      requests (snd (uploadWithRetry twice_503 sample_file 3 ready_widget)) - requests ready_widget = 3
      \<and> fst (uploadWithRetry twice_503 sample_file 3 ready_widget) = Inr ()"
    using retry_policy [of twice_503 sample_file ready_widget] unfolding Let_def by (elim conjE)
  with o(1-3) have a: "requests (snd (uploadWithRetry twice_503 sample_file 3 ready_widget)) - requests ready_widget = 3
      \<and> fst (uploadWithRetry twice_503 sample_file 3 ready_widget) = Inr ()"
    by blast
  have "\<forall>rm m. attempt_outcome (jsonParse once_400) (transport once_400 1) = Inl (HttpError 400 rm m) \<longrightarrow>
      requests (snd (uploadWithRetry once_400 sample_file 3 ready_widget)) - requests ready_widget = 1
      \<and> fst (uploadWithRetry once_400 sample_file 3 ready_widget) = Inl (Some (HttpError 400 rm m))"
    using retry_policy [of once_400 sample_file ready_widget] unfolding Let_def by (elim conjE)
  with o(4) have b: "requests (snd (uploadWithRetry once_400 sample_file 3 ready_widget)) - requests ready_widget = 1
      \<and> fst (uploadWithRetry once_400 sample_file 3 ready_widget)
        = Inl (Some (HttpError 400 None ((lit ''Request failed with status code '') @ showNat 400)))"
    by blast
  from o a b show ?thesis by blast
qed

text \<open>
  Claim C2 as it is written fails on a transport whose first answer is an HTML page: the
  first attempt failed with neither a network error nor a status of 500 or more, and a
  second attempt was made all the same.
\<close>

theorem retry_policy_counterexample:
  "attempt_outcome (jsonParse html_then_ok) (transport html_then_ok 1) = Inl (ResponseError html_error_message)
   \<and> \<not> transient_failure (attempt_outcome (jsonParse html_then_ok) (transport html_then_ok 1))
   \<and> requests (snd (uploadWithRetry html_then_ok sample_file 3 ready_widget)) - requests ready_widget = 2
   \<and> fst (uploadWithRetry html_then_ok sample_file 3 ready_widget) = Inr ()"
proof -
  let ?out = "\<lambda>k. attempt_outcome (jsonParse html_then_ok) (transport html_then_ok k)"
  let ?n = "attempts_from (\<lambda>k. retried (?out k)) 0 3"
  have r1: "retried (?out 1)" and r2: "\<not> retried (?out 2)"
    by (simp_all only: html_then_ok_outcomes retried_cases simp_thms)
  have "?n \<noteq> 1" using retry_run(5) [of html_then_ok] r1 by auto
  moreover have "?n \<noteq> 3" using retry_run(4) [of 2 html_then_ok] r2 by auto
  moreover have "1 \<le> ?n" "?n \<le> 3" by (rule retry_run(2), rule retry_run(3))
  ultimately have n: "?n = 2" by arith
  have 1: "requests (snd (uploadWithRetry html_then_ok sample_file 3 ready_widget)) - requests ready_widget = 2"
    using retry_run(1) [of html_then_ok sample_file ready_widget] n by simp
  have 2: "fst (uploadWithRetry html_then_ok sample_file 3 ready_widget) = Inr ()"
    using retry_run(6) [of html_then_ok sample_file ready_widget] by (simp only: n html_then_ok_outcomes) simp
  have 3: "\<not> transient_failure (?out 1)"
    by (simp only: html_then_ok_outcomes) (simp add: transient_failure_def)
  from 1 2 3 html_then_ok_outcomes(1) show ?thesis by blast
qed


section \<open>Properties of the backoff\<close>

lemma jitter_range: "0 \<le> r \<Longrightarrow> r < 1 \<Longrightarrow> 0 \<le> \<lfloor>r * 200\<rfloor> \<and> \<lfloor>r * 200\<rfloor> < 200"
  by (simp add: floor_less_iff)

lemma backoffDelay_first: "backoffDelay 1 r = 2000 + \<lfloor>r * 200\<rfloor>"
  by (simp add: backoffDelay_def)

lemma backoffDelay_second: "backoffDelay 2 r = 4000 + \<lfloor>r * 200\<rfloor>"
  by (simp add: backoffDelay_def)

lemma backoffDelay_capped:
  assumes "3 \<le> k"
  shows "backoffDelay k r = 8000 + \<lfloor>r * 200\<rfloor>"
proof -
  from assms have "2 \<le> k - 1" by simp
  then have "(2::int) ^ 2 \<le> 2 ^ (k - 1)" by (rule power_increasing) simp
  then have "(8000::int) \<le> 2000 * 2 ^ (k - 1)" by simp
  then show ?thesis by (simp add: backoffDelay_def min_def)
qed

lemma retried_prefix:
  assumes "1 \<le> n" and "\<And>k. 1 \<le> k \<Longrightarrow> k < n \<Longrightarrow> P k"
  shows "filter P [1 ..< Suc n] = [1 ..< Suc (if P n then n else n - 1)]"
proof -
  from assms(1) have split: "[1 ..< Suc n] = [1 ..< n] @ [n]" by simp
  have "filter P [1 ..< n] = [1 ..< n]"
    using assms(2) by (simp add: filter_id_conv)
  with split have f: "filter P [1 ..< Suc n] = [1 ..< n] @ (if P n then [n] else [])"
    by simp
  show ?thesis
  proof (cases "P n")
    case True
    with f split show ?thesis by simp
  next
    case False
    from assms(1) have "Suc (n - 1) = n" by simp
    with f False show ?thesis by simp
  qed
qed

text \<open>
  Claim C3. The delays slept in a series are those of the failed attempts 1 to \<open>d\<close>, in
  order, each after its attempt and so none before the first attempt; \<open>d\<close> is the number of
  attempts when the last one was a failure to retry, one less otherwise. The delay after
  the failed attempt of number \<open>k\<close> is the smaller of 2000 times 2 to the \<open>k - 1\<close> and 8000
  milliseconds, plus a jitter that is a whole number from 0 to 199 when the random number
  is in the unit interval: 2000 after the first failure, 4000 after the second, 8000 from
  the third on, each plus the jitter.
\<close>

theorem backoff_delays:
  "let out = (\<lambda>k. attempt_outcome (jsonParse env) (transport env k));
       run = uploadWithRetry env f 3 s;
       n = requests (snd run) - requests s;
       d = (if retried (out n) then n else n - 1)
   in waited (snd run) = waited s @ map (\<lambda>k. backoffDelay k (random env k)) [1 ..< Suc d]
      \<and> d \<le> n
      \<and> (\<forall>k. 1 \<le> k \<and> k \<le> d \<longrightarrow> retried (out k))
      \<and> (\<forall>k r. 1 \<le> k \<and> 0 \<le> r \<and> r < 1 \<longrightarrow>
            (\<exists>j. 0 \<le> j \<and> j < 200 \<and> backoffDelay k r = min (2000 * 2 ^ (k - 1)) 8000 + j))
      \<and> (\<forall>r. backoffDelay 1 r = 2000 + \<lfloor>r * 200\<rfloor> \<and> backoffDelay 2 r = 4000 + \<lfloor>r * 200\<rfloor>)
      \<and> (\<forall>k r. 3 \<le> k \<longrightarrow> backoffDelay k r = 8000 + \<lfloor>r * 200\<rfloor>)"
proof -
  define out where "out = (\<lambda>k. attempt_outcome (jsonParse env) (transport env k))"
  define n where "n = requests (snd (uploadWithRetry env f 3 s)) - requests s"
  define d where "d = (if retried (out n) then n else n - 1)"
  have n: "n = attempts_from (\<lambda>k. retried (out k)) 0 3"
    unfolding n_def out_def by (rule retry_run(1))
  have pos: "1 \<le> n"
    unfolding n out_def by (rule retry_run(2))
  have before: "retried (out k)" if "1 \<le> k" "k < n" for k
    using that unfolding n out_def by (rule retry_run(4))
  have "waited (snd (uploadWithRetry env f 3 s)) = waited s @ map (\<lambda>k. backoffDelay k (random env k))
       (filter (\<lambda>k. retried (out k)) [1 ..< Suc n])"
    unfolding n out_def by (rule retry_run(7))
  also have "filter (\<lambda>k. retried (out k)) [1 ..< Suc n] = [1 ..< Suc d]"
    unfolding d_def using pos before by (rule retried_prefix)
  finally have 1: "waited (snd (uploadWithRetry env f 3 s)) =
      waited s @ map (\<lambda>k. backoffDelay k (random env k)) [1 ..< Suc d]" .
  have 2: "d \<le> n" by (simp add: d_def)
  have 3: "retried (out k)" if "1 \<le> k \<and> k \<le> d" for k
  proof (cases "k < n")
    case True
    with that show ?thesis by (simp add: before)
  next
    case False
    with that 2 have "k = n" "d = n" by simp_all
    then show ?thesis using pos by (auto simp: d_def split: if_splits)
  qed
  have 4: "\<exists>j. 0 \<le> j \<and> j < 200 \<and> backoffDelay k r = min (2000 * 2 ^ (k - 1)) 8000 + j"
    if "1 \<le> k \<and> 0 \<le> r \<and> r < 1" for k and r :: real
    using that jitter_range [of r] by (intro exI [of _ "\<lfloor>r * 200\<rfloor>"]) (simp add: backoffDelay_def)
  have "waited (snd (uploadWithRetry env f 3 s)) = waited s @ map (\<lambda>k. backoffDelay k (random env k)) [1 ..< Suc d]
      \<and> d \<le> n
      \<and> (\<forall>k. 1 \<le> k \<and> k \<le> d \<longrightarrow> retried (out k))
      \<and> (\<forall>k r. 1 \<le> k \<and> 0 \<le> r \<and> r < 1 \<longrightarrow>
            (\<exists>j. 0 \<le> j \<and> j < 200 \<and> backoffDelay k r = min (2000 * 2 ^ (k - 1)) 8000 + j))
      \<and> (\<forall>r. backoffDelay 1 r = 2000 + \<lfloor>r * 200\<rfloor> \<and> backoffDelay 2 r = 4000 + \<lfloor>r * 200\<rfloor>)
      \<and> (\<forall>k r. 3 \<le> k \<longrightarrow> backoffDelay k r = 8000 + \<lfloor>r * 200\<rfloor>)"
    using 1 2 3 4 backoffDelay_first backoffDelay_second backoffDelay_capped by blast
  then show ?thesis
    unfolding Let_def out_def n_def d_def .
qed


lemma ready_widget_fields:
  "file_st ready_widget = Some sample_file" "status ready_widget = Ready" "waited ready_widget = []"
  "toasts ready_widget = []" "requests ready_widget = 0" "errors ready_widget = []"
proof -
  have "validateBasic sample_file = []" "validateDimensions sample_file = []"
    using sample_file_accepted by simp_all
  then show "file_st ready_widget = Some sample_file" "status ready_widget = Ready"
    "waited ready_widget = []" "toasts ready_widget = []" "requests ready_widget = 0"
    "errors ready_widget = []"
    by (simp_all add: ready_widget_def setFileWithValidation_def revokePreview_def
        initial_widget_def Let_def)
qed

lemma twice_503_attempts:
  "requests (snd (uploadWithRetry twice_503 f 3 s)) - requests s = 3"
proof -
  let ?out = "\<lambda>k. attempt_outcome (jsonParse twice_503) (transport twice_503 k)"
  let ?n = "attempts_from (\<lambda>k. retried (?out k)) 0 3"
  have r1: "retried (?out 1)" and r2: "retried (?out 2)"
    by (simp_all only: twice_503_outcomes server_error_def retried_cases) simp_all
  have "?n \<noteq> 1" using retry_run(5) [of twice_503] r1 by auto
  moreover have "?n \<noteq> 2" using retry_run(5) [of twice_503] r2 by auto
  moreover have "1 \<le> ?n" "?n \<le> 3" by (rule retry_run(2), rule retry_run(3))
  ultimately have "?n = 3" by arith
  then show ?thesis
    using retry_run(1) [of twice_503 f s] by simp
qed

theorem backoff_delays_witness:
  "(1::nat) \<le> 3 \<and> (0::real) \<le> 1 / 2 \<and> (1::real) / 2 < 1
   \<and> waited (snd (uploadWithRetry twice_503 sample_file 3 ready_widget)) = [2100, 4100]
   \<and> (\<exists>j. 0 \<le> j \<and> j < 200 \<and> backoffDelay 3 (1 / 2) = min (2000 * 2 ^ (3 - 1)) 8000 + j)"
proof -
  note w = backoff_delays [of twice_503 sample_file ready_widget, unfolded Let_def twice_503_attempts]
  have o3: "\<not> retried (attempt_outcome (jsonParse twice_503) (transport twice_503 3))"
    by (simp only: twice_503_outcomes retried_cases simp_thms)
  from w have "waited (snd (uploadWithRetry twice_503 sample_file 3 ready_widget)) =
      waited ready_widget @ map (\<lambda>k. backoffDelay k (random twice_503 k))
        [1 ..< Suc (if retried (attempt_outcome (jsonParse twice_503) (transport twice_503 3)) then 3 else 3 - 1)]"
    by (rule conjunct1)
  also have "[1 ..< Suc (if retried (attempt_outcome (jsonParse twice_503) (transport twice_503 3)) then 3 else 3 - 1)]
      = [1, 2]"
    using o3 by (simp add: upt_rec)
  finally have 1: "waited (snd (uploadWithRetry twice_503 sample_file 3 ready_widget)) = [2100, 4100]"
    by (simp add: ready_widget_fields twice_503_def env_of_fields backoffDelay_def)
  from w have "\<forall>k r. 1 \<le> k \<and> 0 \<le> r \<and> r < 1 \<longrightarrow>
      (\<exists>j. 0 \<le> j \<and> j < 200 \<and> backoffDelay k r = min (2000 * 2 ^ (k - 1)) 8000 + j)"
    by (elim conjE)
  note q = this [rule_format, of 3 "1 / 2"]
  have h: "(1::nat) \<le> 3 \<and> (0::real) \<le> 1 / 2 \<and> (1::real) / 2 < 1" by simp
  have 2: "\<exists>j. 0 \<le> j \<and> j < 200 \<and> backoffDelay 3 (1 / 2) = min (2000 * 2 ^ (3 - 1)) 8000 + j"
    using h by (rule q)
  from 1 2 h show ?thesis by blast
qed

section \<open>Cancellation\<close>

lemma failure_message_canceled: "failure_message (Some (Canceled (lit ''canceled''))) = (lit ''canceled'')"
  by (simp add: failure_message_def orElse_def)

lemma handleUpload_failure:
  assumes "file_st s = Some f"
    and "fst (uploadWithRetry env f 3
           (s\<lparr> status := Uploading, result := None, errors := [],
               toasts := toasts s @ [Toast Neutral (lit ''Starting upload'')
                           (lit ''Your image is being uploaded and processed...'')] \<rparr>)) = Inl e"
  shows "status (handleUpload env s) = Error"
    and "errors (handleUpload env s) = [failure_message e]"
    and "Toast ErrorToast (lit ''Prediction failed'') (failure_message e) \<in> set (toasts (handleUpload env s))"
  using assms by (simp_all add: handleUpload_def Let_def split_beta split: sum.splits)

lemma canceled_series:
  assumes "ending (transport env 1) = UserCancels m \<or> ending (transport env 1) = UserResets m"
  shows "fst (uploadWithRetry env f 3 s) = Inl (Some (Canceled m))"
proof -
  have out: "attempt_outcome (jsonParse env) (transport env (Suc 0)) = Inl (Canceled m)"
    using assms by (auto simp: attempt_outcome_def)
  have "uploadWithRetry_loop env f 3 0 None s =
      (Inl (Some (Canceled m)), snd (uploadOnce (jsonParse env) f (transport env (Suc 0)) s))"
    by (rule loop_final_failure [OF _ out]) simp_all
  then show ?thesis by (simp add: uploadWithRetry_def)
qed

lemma canceled_series_state:
  assumes "ending (transport env 1) = UserCancels m \<or> ending (transport env 1) = UserResets m"
  shows "snd (uploadWithRetry env f 3 s) = snd (uploadOnce (jsonParse env) f (transport env 1) s)"
proof -
  have out: "attempt_outcome (jsonParse env) (transport env (Suc 0)) = Inl (Canceled m)"
    using assms by (auto simp: attempt_outcome_def)
  have "uploadWithRetry_loop env f 3 0 None s =
      (Inl (Some (Canceled m)), snd (uploadOnce (jsonParse env) f (transport env (Suc 0)) s))"
    by (rule loop_final_failure [OF _ out]) simp_all
  then show ?thesis by (simp add: uploadWithRetry_def)
qed

lemma uploadOnce_canceled_toasts:
  assumes "ending a = UserCancels m"
  shows "toasts (snd (uploadOnce parse f a s)) =
     toasts s @ [Toast Neutral (lit ''Upload canceled'') (lit ''You canceled the current upload.'')]"
proof -
  obtain s1 where "uploadOnce parse f a s =
      (case ending a of
         Responds r \<Rightarrow>
           (case interpretResponse parse r of
              Inl e \<Rightarrow> (Inl e, s1\<lparr> inflight := None \<rparr>)
            | Inr normalized \<Rightarrow> (Inr (), s1\<lparr> inflight := None, result := Some normalized \<rparr>))
       | Rejects e \<Rightarrow> (Inl e, s1\<lparr> inflight := None \<rparr>)
       | UserCancels m \<Rightarrow> (Inl (Canceled m), handleCancel s1)
       | UserResets m \<Rightarrow> (Inl (Canceled m), resetAll s1))" and "toasts s1 = toasts s"
    using uploadOnce_frame by blast
  with assms show ?thesis
    by (simp add: handleCancel_kept)
qed

lemma handleUpload_failure_toasts:
  assumes "file_st s = Some f"
    and "fst (uploadWithRetry env f 3
           (s\<lparr> status := Uploading, result := None, errors := [],
               toasts := toasts s @ [Toast Neutral (lit ''Starting upload'')
                           (lit ''Your image is being uploaded and processed...'')] \<rparr>)) = Inl e"
  shows "toasts (handleUpload env s) =
     toasts (snd (uploadWithRetry env f 3
           (s\<lparr> status := Uploading, result := None, errors := [],
               toasts := toasts s @ [Toast Neutral (lit ''Starting upload'')
                           (lit ''Your image is being uploaded and processed...'')] \<rparr>)))
     @ [Toast ErrorToast (lit ''Prediction failed'') (failure_message e)]"
  using assms by (simp add: handleUpload_def Let_def split_beta split: sum.splits)

text \<open>
  Claim C1 fails on the code. The user cancels the first attempt while it is on the wire:
  \<^verbatim>\<open>handleCancel\<close> sets the status to ready and shows the neutral notice, the transport
  rejects with its cancellation error, \<^verbatim>\<open>uploadWithRetry\<close> rethrows it, and the \<^verbatim>\<open>catch\<close> block
  of \<^verbatim>\<open>handleUpload\<close> treats it as any failure: the status ends as error, the message of
  the cancellation becomes the error shown, and an error notification follows the neutral
  one. The same happens when the attempt is aborted by \<^verbatim>\<open>resetAll\<close>.
\<close>

theorem cancel_ends_as_failure:
  "file_st ready_widget = Some sample_file
   \<and> ending (transport canceled_first 1) = UserCancels (lit ''canceled'')
   \<and> status (handleUpload canceled_first ready_widget) = Error
   \<and> errors (handleUpload canceled_first ready_widget) = [(lit ''canceled'')]
   \<and> toasts (handleUpload canceled_first ready_widget) =
       [Toast Neutral (lit ''Starting upload'') (lit ''Your image is being uploaded and processed...''),
        Toast Neutral (lit ''Upload canceled'') (lit ''You canceled the current upload.''),
        Toast ErrorToast (lit ''Prediction failed'') (lit ''canceled'')]
   \<and> ending (transport reset_first 1) = UserResets (lit ''canceled'')
   \<and> status (handleUpload reset_first ready_widget) = Error
   \<and> Toast ErrorToast (lit ''Prediction failed'') (lit ''canceled'') \<in> set (toasts (handleUpload reset_first ready_widget))"
proof -
  have c: "ending (transport canceled_first 1) = UserCancels (lit ''canceled'')"
    by (simp add: canceled_first_def env_of_fields)
  have r: "ending (transport reset_first 1) = UserResets (lit ''canceled'')"
    by (simp add: reset_first_def env_of_fields)
  have f: "file_st ready_widget = Some sample_file"
    by (rule ready_widget_fields)
  have "fst (uploadWithRetry canceled_first sample_file 3
           (ready_widget\<lparr> status := Uploading, result := None, errors := [],
               toasts := toasts ready_widget @ [Toast Neutral (lit ''Starting upload'')
                           (lit ''Your image is being uploaded and processed...'')] \<rparr>))
        = Inl (Some (Canceled (lit ''canceled'')))"
    by (rule canceled_series, rule disjI1, rule c)
  note a = handleUpload_failure [OF f this, unfolded failure_message_canceled]
    and t = handleUpload_failure_toasts [OF f this, unfolded failure_message_canceled]
  have "ending (transport canceled_first 1) = UserCancels (lit ''canceled'')
      \<or> ending (transport canceled_first 1) = UserResets (lit ''canceled'')"
    using c ..
  note st = canceled_series_state [OF this]
  have t': "toasts (handleUpload canceled_first ready_widget) =
       [Toast Neutral (lit ''Starting upload'') (lit ''Your image is being uploaded and processed...''),
        Toast Neutral (lit ''Upload canceled'') (lit ''You canceled the current upload.''),
        Toast ErrorToast (lit ''Prediction failed'') (lit ''canceled'')]"
    unfolding t st uploadOnce_canceled_toasts [OF c] by (simp add: ready_widget_fields)
  have "fst (uploadWithRetry reset_first sample_file 3
           (ready_widget\<lparr> status := Uploading, result := None, errors := [],
               toasts := toasts ready_widget @ [Toast Neutral (lit ''Starting upload'')
                           (lit ''Your image is being uploaded and processed...'')] \<rparr>))
        = Inl (Some (Canceled (lit ''canceled'')))"
    by (rule canceled_series, rule disjI2, rule r)
  note b = handleUpload_failure [OF f this, unfolded failure_message_canceled]
  from c r f a(1,2) b(1,3) t' show ?thesis by blast
qed


text \<open>
  When every attempt of a series is answered by such an HTML page, the series is retried to
  its end and the upload ends in the error state with the configuration message.
\<close>

lemma html_series_fails:
  assumes "file_st s = Some f"
    and "\<And>k. attempt_outcome (jsonParse env) (transport env k) = Inl (ResponseError html_error_message)"
  shows "status (handleUpload env s) = Error" and "errors (handleUpload env s) = [html_error_message]"
proof -
  let ?s1 = "s\<lparr> status := Uploading, result := None, errors := [],
               toasts := toasts s @ [Toast Neutral (lit ''Starting upload'')
                           (lit ''Your image is being uploaded and processed...'')] \<rparr>"
  have "fst (uploadWithRetry env f 3 ?s1) = Inl (Some (ResponseError html_error_message))"
    using retry_run(6) [of env f ?s1] by (simp only: assms(2)) simp
  note fails = handleUpload_failure [OF assms(1) this]
  have "html_error_message \<noteq> []" by (simp add: html_error_message_def)
  then have "failure_message (Some (ResponseError html_error_message)) = html_error_message"
    by (simp add: failure_message_def orElse_def)
  with fails show "status (handleUpload env s) = Error" and "errors (handleUpload env s) = [html_error_message]"
    by simp_all
qed

end
